theory Spec2Isabelle
  imports Main "HOL-Library.Sublist"
begin

section \<open>Strings as the stream route uses them\<close>

text \<open>
  JavaScript strings are modelled as \<^typ>\<open>string\<close>. The operations below are the ones the
  route applies to titles, file names and the season and episode segments of the request
  id; they are exact on ASCII text (letters, digits and punctuation), which is what the
  patterns of the route consist of.
\<close>

definition toLowerCase_char :: "char \<Rightarrow> char" where
  "toLowerCase_char c =
     (case map_of (zip ''ABCDEFGHIJKLMNOPQRSTUVWXYZ'' ''abcdefghijklmnopqrstuvwxyz'') c of
        Some l \<Rightarrow> l
      | None \<Rightarrow> c)"

definition toLowerCase :: "string \<Rightarrow> string" where
  "toLowerCase s = map toLowerCase_char s"

text \<open>\<^verbatim>\<open>s.padStart(2, '0')\<close>: a string of length two or more is returned as it is.\<close>

definition padStart2 :: "string \<Rightarrow> string" where
  "padStart2 s = replicate (2 - length s) (CHR ''0'') @ s"

text \<open>\<^verbatim>\<open>t.includes(p)\<close>: \<open>p\<close> occurs in \<open>t\<close> as a contiguous substring.\<close>

fun str_includes :: "string \<Rightarrow> string \<Rightarrow> bool" where
  "str_includes [] p = (p = [])"
| "str_includes (c # cs) p = (prefix p (c # cs) \<or> str_includes cs p)"

text \<open>\<^verbatim>\<open>id.split(':')\<close>: never the empty array; \<^verbatim>\<open>''.split(':')\<close> is \<^verbatim>\<open>['']\<close>.\<close>

fun split :: "char \<Rightarrow> string \<Rightarrow> string list" where
  "split d [] = [[]]"
| "split d (c # cs) =
     (if c = d then [] # split d cs
      else (case split d cs of
              [] \<Rightarrow> [[c]]
            | p # ps \<Rightarrow> (c # p) # ps))"

text \<open>\<^verbatim>\<open>parts[i] || null\<close>: a missing element and the empty string both give \<^verbatim>\<open>null\<close>.\<close>

definition part_or_null :: "string list \<Rightarrow> nat \<Rightarrow> string option" where
  "part_or_null parts i =
     (if i < length parts \<and> parts ! i \<noteq> [] then Some (parts ! i) else None)"

text \<open>Truthiness of an optional string: \<^verbatim>\<open>undefined\<close>, \<^verbatim>\<open>null\<close> and \<^verbatim>\<open>''\<close> are falsy.\<close>

fun truthy :: "string option \<Rightarrow> bool" where
  "truthy None = False"
| "truthy (Some s) = (s \<noteq> [])"

definition isDigit :: "char \<Rightarrow> bool" where
  "isDigit c = (c \<in> set ''0123456789'')"

text \<open>
  \<^verbatim>\<open>fileName.match(/s(\d{2})e(\d{2})/i)\<close>: the leftmost place where an \<open>s\<close>, two digits, an
  \<open>e\<close> and two digits follow each other; the two captures are returned.
\<close>

fun episodeRegex_here :: "string \<Rightarrow> (string \<times> string) option" where
  "episodeRegex_here (a # d1 # d2 # b # d3 # d4 # rest) =
     (if (a = CHR ''s'' \<or> a = CHR ''S'') \<and> isDigit d1 \<and> isDigit d2 \<and>
         (b = CHR ''e'' \<or> b = CHR ''E'') \<and> isDigit d3 \<and> isDigit d4
      then Some ([d1, d2], [d3, d4]) else None)"
| "episodeRegex_here _ = None"

fun episodeRegex :: "string \<Rightarrow> (string \<times> string) option" where
  "episodeRegex [] = None"
| "episodeRegex (c # cs) =
     (case episodeRegex_here (c # cs) of
        Some m \<Rightarrow> Some m
      | None \<Rightarrow> episodeRegex cs)"


section \<open>The stream cache (utils/db)\<close>

record StreamEntry =
  name :: string
  title :: string
  url :: string

text \<open>
  The column \<^verbatim>\<open>streams_json\<close> holds text. The text is either what \<^verbatim>\<open>JSON.stringify\<close>
  produced for a sequence of stream entries, which \<^verbatim>\<open>JSON.parse\<close> turns back into that
  sequence (the entries have string fields only), or some other text, on which
  \<^verbatim>\<open>JSON.parse\<close> throws.
\<close>

datatype json_text = Stringified "StreamEntry list" | Garbled string

definition JSON_stringify :: "StreamEntry list \<Rightarrow> json_text" where
  "JSON_stringify streams = Stringified streams"

fun JSON_parse :: "json_text \<Rightarrow> StreamEntry list option" where
  "JSON_parse (Stringified streams) = Some streams"
| "JSON_parse (Garbled t) = None"

text \<open>Truthiness of the column value: SQL NULL and the empty text are falsy.\<close>

fun truthy_text :: "json_text option \<Rightarrow> bool" where
  "truthy_text None = False"
| "truthy_text (Some (Garbled t)) = (t \<noteq> [])"
| "truthy_text (Some (Stringified streams)) = True"

text \<open>
  A row of the table \<^verbatim>\<open>streams_cache\<close>. The request binds JavaScript \<^verbatim>\<open>null\<close> for an
  absent season or episode, which SQLite stores as NULL: \<open>None\<close> here.
\<close>

record row =
  row_imdb_id :: string
  row_season :: "string option"
  row_episode :: "string option"
  streams_json :: "json_text option"

text \<open>
  The SQL comparison \<^verbatim>\<open>column = ?\<close> as a \<^verbatim>\<open>WHERE\<close> clause reads it: a comparison with
  NULL on either side is not true.
\<close>

fun sql_eq :: "string option \<Rightarrow> string option \<Rightarrow> bool" where
  "sql_eq (Some a) (Some b) = (a = b)"
| "sql_eq _ _ = False"

text \<open>\<^verbatim>\<open>WHERE imdb_id = ? AND season = ? AND episode = ?\<close>\<close>

definition where_key :: "string \<Rightarrow> string option \<Rightarrow> string option \<Rightarrow> row \<Rightarrow> bool" where
  "where_key imdbId season episode r =
     (row_imdb_id r = imdbId \<and> sql_eq (row_season r) season \<and> sql_eq (row_episode r) episode)"

text \<open>
  \<^verbatim>\<open>db.get\<close> of the \<^verbatim>\<open>SELECT\<close>: the driver reports an error, or the first row that
  matches, or no row. The error the driver reports (if any) is the argument \<open>err\<close>.
\<close>

definition db_get ::
  "string option \<Rightarrow> row list \<Rightarrow> string \<Rightarrow> string option \<Rightarrow> string option \<Rightarrow> string + row option"
where
  "db_get err tbl imdbId season episode =
     (case err of
        Some e \<Rightarrow> Inl e
      | None \<Rightarrow> Inr (find (where_key imdbId season episode) tbl))"

text \<open>
  \<^verbatim>\<open>db.run\<close> of \<^verbatim>\<open>INSERT OR REPLACE\<close>: the rows that collide with the new row on the
  primary key \<^verbatim>\<open>(imdb_id, season, episode)\<close> are deleted and the new row is added. The
  uniqueness of the key treats NULLs as distinct from each other, so a row with a NULL
  season or episode collides with no row.
\<close>

definition db_run_insert_or_replace ::
  "string option \<Rightarrow> row list \<Rightarrow> row \<Rightarrow> string + row list"
where
  "db_run_insert_or_replace err tbl new =
     (case err of
        Some e \<Rightarrow> Inl e
      | None \<Rightarrow>
          Inr (filter (\<lambda>r. \<not> where_key (row_imdb_id new) (row_season new) (row_episode new) r) tbl
               @ [new]))"

text \<open>
  \<open>getCachedStream\<close>: \<open>Inl\<close> is the rejected promise, \<open>Inr None\<close> is \<^verbatim>\<open>resolve(null)\<close>.
\<close>

definition getCachedStream ::
  "string option \<Rightarrow> row list \<Rightarrow> string \<Rightarrow> string option \<Rightarrow> string option
     \<Rightarrow> string + StreamEntry list option"
where
  "getCachedStream err tbl imdbId season episode =
     (case db_get err tbl imdbId season episode of
        Inl e \<Rightarrow> Inl e
      | Inr None \<Rightarrow> Inr None
      | Inr (Some r) \<Rightarrow>
          (case streams_json r of
             None \<Rightarrow> Inr None
           | Some payload \<Rightarrow>
               (if truthy_text (Some payload)
                then (case JSON_parse payload of
                        Some streams \<Rightarrow> Inr (Some streams)
                      | None \<Rightarrow> Inr None)
                else Inr None)))"

text \<open>\<open>storeStream\<close>: \<open>Inl\<close> is the rejected promise, \<open>Inr\<close> carries the table after the write.\<close>

definition storeStream ::
  "string option \<Rightarrow> row list \<Rightarrow> string \<Rightarrow> string option \<Rightarrow> string option
     \<Rightarrow> StreamEntry list \<Rightarrow> string + row list"
where
  "storeStream err tbl imdbId season episode streams =
     db_run_insert_or_replace err tbl
       \<lparr>row_imdb_id = imdbId, row_season = season, row_episode = episode,
        streams_json = Some (JSON_stringify streams)\<rparr>"


section \<open>The stream route (routes/stream)\<close>

subsection \<open>Data of the pipeline\<close>

record CandidateTorrent =
  torrent_title :: string
  torrent_hash :: "string option"
  torrent_id :: "string option"
  torrent_source :: "string option"

record SearchResults =
  completeSeriesTorrents :: "CandidateTorrent list"
  completeSeasonTorrents :: "CandidateTorrent list"
  episodeTorrents :: "CandidateTorrent list"
  movieTorrents :: "CandidateTorrent list"

record Magnet =
  magnet_hash :: string
  magnet_title :: string
  magnet_source :: string

record UploadStatus =
  status_hash :: string
  status_id :: string
  status_name :: string
  status_source :: string
  ready :: string

record VideoFile =
  file_name :: string
  file_link :: string
  file_size :: nat

record TmdbData =
  tmdb_title :: string
  tmdb_type :: string
  frenchTitle :: "string option"

text \<open>
  The configuration. \<open>FILES_TO_SHOW\<close> is the number the configuration carries: the
  configuration page fills it with \<^verbatim>\<open>parseInt\<close> of a numeric field (2 by default) and
  nothing checks its sign, so it is an integer that may be zero or negative. (A missing
  value, \<^verbatim>\<open>null\<close>, behaves as 0 in each of the three places the handler uses it.) The
  other settings are only handed on to the adapters.
\<close>

record Config =
  FILES_TO_SHOW :: int
  other_settings :: string

text \<open>What \<open>parseFileName\<close> returns.\<close>

record ParsedName =
  resolution :: string
  codec :: string
  source :: string

record request =
  params_variables :: string
  params_type :: string
  params_id :: string

text \<open>
  The calls the route makes to the cache and to the external services, in the order it
  makes them.
\<close>

datatype call =
    GetCachedStream string "string option" "string option"
  | StoreStream string "string option" "string option" "StreamEntry list"
  | GetTmdbData string
  | SearchYgg string string "string option" "string option"
  | SearchSharewood string string "string option" "string option"
  | GetTorrentHashFromYgg "string option"
  | UploadMagnets "Magnet list"
  | GetFilesFromMagnetId string string
  | UnlockFileLink string

text \<open>
  The services and helpers the route imports. What a service answers may depend on the
  calls made before it in the request, so each one reads the log of the calls so far;
  \<open>sqlite_error\<close> is the error the database driver reports for the next statement, if
  any. \<open>getConfig\<close> returns the configuration or the message of the error it throws.
  Every service returns a value: a service that throws is outside this model.
\<close>

record env =
  getConfig :: "request \<Rightarrow> string + Config"
  sqlite_error :: "call list \<Rightarrow> string option"
  getTmdbData :: "call list \<Rightarrow> string \<Rightarrow> Config \<Rightarrow> TmdbData option"
  searchYgg :: "call list \<Rightarrow> string \<Rightarrow> string \<Rightarrow> string option \<Rightarrow> string option \<Rightarrow> Config
                  \<Rightarrow> string option \<Rightarrow> SearchResults"
  searchSharewood :: "call list \<Rightarrow> string \<Rightarrow> string \<Rightarrow> string option \<Rightarrow> string option \<Rightarrow> Config
                  \<Rightarrow> SearchResults"
  getTorrentHashFromYgg :: "call list \<Rightarrow> string option \<Rightarrow> string option"
  uploadMagnets :: "call list \<Rightarrow> Magnet list \<Rightarrow> Config \<Rightarrow> UploadStatus list"
  getFilesFromMagnetId :: "call list \<Rightarrow> string \<Rightarrow> string \<Rightarrow> Config \<Rightarrow> VideoFile list"
  unlockFileLink :: "call list \<Rightarrow> string \<Rightarrow> Config \<Rightarrow> string option"
  parseFileName :: "string \<Rightarrow> ParsedName"
  formatSize :: "nat \<Rightarrow> string"

text \<open>
  What ends a request: a rejected cache promise or the \<open>TypeError\<close> of a method call on
  \<^verbatim>\<open>null\<close> leaves the handler without a response; otherwise the response is the status
  400 with a message or the JSON body \<^verbatim>\<open>{ streams }\<close>.
\<close>

datatype failure = CacheError string | TypeError

datatype response = Status400 string | Json "StreamEntry list" | Rejected failure

text \<open>The state a request runs in: the table of the cache and the log of the calls.\<close>

type_synonym state = "row list \<times> call list"

definition getCachedStream_call ::
  "env \<Rightarrow> string \<Rightarrow> string option \<Rightarrow> string option \<Rightarrow> state
     \<Rightarrow> (failure + StreamEntry list option) \<times> state"
where
  "getCachedStream_call E imdbId season episode st =
     (case st of (tbl, calls) \<Rightarrow>
        (case getCachedStream (sqlite_error E calls) tbl imdbId season episode of
           Inl e \<Rightarrow> (Inl (CacheError e), (tbl, calls @ [GetCachedStream imdbId season episode]))
         | Inr cached \<Rightarrow> (Inr cached, (tbl, calls @ [GetCachedStream imdbId season episode]))))"

definition storeStream_call ::
  "env \<Rightarrow> string \<Rightarrow> string option \<Rightarrow> string option \<Rightarrow> StreamEntry list \<Rightarrow> state
     \<Rightarrow> (failure + unit) \<times> state"
where
  "storeStream_call E imdbId season episode streams st =
     (case st of (tbl, calls) \<Rightarrow>
        (case storeStream (sqlite_error E calls) tbl imdbId season episode streams of
           Inl e \<Rightarrow> (Inl (CacheError e), (tbl, calls @ [StoreStream imdbId season episode streams]))
         | Inr tbl' \<Rightarrow> (Inr (), (tbl', calls @ [StoreStream imdbId season episode streams]))))"


subsection \<open>Merging and classifying the search results\<close>

definition combinedResults :: "SearchResults \<Rightarrow> SearchResults \<Rightarrow> SearchResults" where
  "combinedResults yggResults sharewoodResults =
     \<lparr>completeSeriesTorrents =
        completeSeriesTorrents yggResults @ completeSeriesTorrents sharewoodResults,
      completeSeasonTorrents =
        completeSeasonTorrents yggResults @ completeSeasonTorrents sharewoodResults,
      episodeTorrents = episodeTorrents yggResults @ episodeTorrents sharewoodResults,
      movieTorrents = movieTorrents yggResults @ movieTorrents sharewoodResults\<rparr>"

definition noResults :: "SearchResults \<Rightarrow> bool" where
  "noResults combined =
     (length (completeSeriesTorrents combined) = 0 \<and>
      length (completeSeasonTorrents combined) = 0 \<and>
      length (episodeTorrents combined) = 0 \<and>
      length (movieTorrents combined) = 0)"

text \<open>
  The callback of the episode filter. \<^verbatim>\<open>season.padStart\<close> and \<^verbatim>\<open>episode.padStart\<close> are
  plain method calls: on \<^verbatim>\<open>null\<close> they throw a \<open>TypeError\<close>.
\<close>

definition episodeFilter ::
  "string option \<Rightarrow> string option \<Rightarrow> CandidateTorrent \<Rightarrow> failure + bool"
where
  "episodeFilter season episode torrent =
     (case season of
        None \<Rightarrow> Inl TypeError
      | Some s \<Rightarrow>
          (case episode of
             None \<Rightarrow> Inl TypeError
           | Some e \<Rightarrow>
               (let torrentTitle = toLowerCase (torrent_title torrent);
                    seasonEpisodePattern1 = ''s'' @ padStart2 s @ ''e'' @ padStart2 e;
                    seasonEpisodePattern2 = ''s'' @ padStart2 s @ ''.e'' @ padStart2 e
                in Inr (str_includes torrentTitle seasonEpisodePattern1 \<or>
                        str_includes torrentTitle seasonEpisodePattern2))))"

text \<open>\<^verbatim>\<open>Array.prototype.filter\<close> with a callback that may throw; it is not called on an empty array.\<close>

fun filter_js :: "('a \<Rightarrow> failure + bool) \<Rightarrow> 'a list \<Rightarrow> failure + 'a list" where
  "filter_js p [] = Inr []"
| "filter_js p (x # xs) =
     (case p x of
        Inl e \<Rightarrow> Inl e
      | Inr keep \<Rightarrow>
          (case filter_js p xs of
             Inl e \<Rightarrow> Inl e
           | Inr ys \<Rightarrow> Inr (if keep then x # ys else ys)))"

definition allTorrents ::
  "string \<Rightarrow> string option \<Rightarrow> string option \<Rightarrow> SearchResults \<Rightarrow> failure + CandidateTorrent list"
where
  "allTorrents type season episode combined =
     (if type = ''series'' then
        (case filter_js (episodeFilter season episode) (episodeTorrents combined) of
           Inl e \<Rightarrow> Inl e
         | Inr filteredEpisodeTorrents \<Rightarrow>
             Inr (completeSeriesTorrents combined @ completeSeasonTorrents combined
                  @ filteredEpisodeTorrents))
      else if type = ''movie'' then Inr (movieTorrents combined)
      else Inr [])"

text \<open>
  \<^verbatim>\<open>xs.slice(0, end)\<close> for an integer \<open>end\<close>: a negative \<open>end\<close> counts from the end of
  the array, so the last \<open>- end\<close> elements are dropped; otherwise the first \<open>end\<close>
  elements are kept.
\<close>

definition slice0 :: "int \<Rightarrow> 'a list \<Rightarrow> 'a list" where
  "slice0 end xs =
     (if end < 0 then take (nat (max (int (length xs) + end) 0)) xs
      else take (nat (min end (int (length xs)))) xs)"

definition limitedTorrents :: "Config \<Rightarrow> CandidateTorrent list \<Rightarrow> CandidateTorrent list" where
  "limitedTorrents config torrents =
     (let maxTorrentsToProcess = FILES_TO_SHOW config * 2
      in slice0 maxTorrentsToProcess torrents)"

subsection \<open>Hash resolution\<close>

text \<open>\<^verbatim>\<open>torrent.source || "Unknown"\<close>\<close>

definition source_or_Unknown :: "string option \<Rightarrow> string" where
  "source_or_Unknown src = (case src of None \<Rightarrow> ''Unknown'' | Some s \<Rightarrow> if s = [] then ''Unknown'' else s)"

definition magnet_of :: "string \<Rightarrow> CandidateTorrent \<Rightarrow> Magnet" where
  "magnet_of hash torrent =
     \<lparr>magnet_hash = hash, magnet_title = torrent_title torrent,
      magnet_source = source_or_Unknown (torrent_source torrent)\<rparr>"

text \<open>The string of a truthy value (used only after the test for truthiness).\<close>

fun string_of :: "string option \<Rightarrow> string" where
  "string_of None = []"
| "string_of (Some s) = s"

fun resolveHashes :: "env \<Rightarrow> CandidateTorrent list \<Rightarrow> Magnet list \<Rightarrow> state \<Rightarrow> Magnet list \<times> state" where
  "resolveHashes E [] magnets st = (magnets, st)"
| "resolveHashes E (torrent # rest) magnets st =
     (case st of (tbl, calls) \<Rightarrow>
        (if truthy (torrent_hash torrent)
         then resolveHashes E rest
                (magnets @ [magnet_of (string_of (torrent_hash torrent)) torrent]) st
         else (let hash = getTorrentHashFromYgg E calls (torrent_id torrent);
                   st1 = (tbl, calls @ [GetTorrentHashFromYgg (torrent_id torrent)])
               in if truthy hash
                  then resolveHashes E rest (magnets @ [magnet_of (string_of hash) torrent]) st1
                  else resolveHashes E rest magnets st1)))"

subsection \<open>Unlocking the files of the ready torrents\<close>

text \<open>The literals of the route that are not ASCII, as their UTF-8 bytes.\<close>

definition Ready :: string where
  "Ready = [CHR 0xE2, CHR 0x9C, CHR 0x85] @ '' Ready''"

definition heart :: string where
  "heart = [CHR 0xE2, CHR 0x9D, CHR 0xA4, CHR 0xEF, CHR 0xB8, CHR 0x8F]"

definition screen :: string where
  "screen = [CHR 0xF0, CHR 0x9F, CHR 0x96, CHR 0xA5, CHR 0xEF, CHR 0xB8, CHR 0x8F]"

definition film :: string where
  "film = [CHR 0xF0, CHR 0x9F, CHR 0x8E, CHR 0x9E, CHR 0xEF, CHR 0xB8, CHR 0x8F]"

definition clapper :: string where
  "clapper = [CHR 0xF0, CHR 0x9F, CHR 0x8E, CHR 0xAC]"

definition disk :: string where
  "disk = [CHR 0xF0, CHR 0x9F, CHR 0x92, CHR 0xBE]"

definition streamObj_of :: "env \<Rightarrow> TmdbData \<Rightarrow> UploadStatus \<Rightarrow> VideoFile \<Rightarrow> string \<Rightarrow> StreamEntry" where
  "streamObj_of E tmdbData torrent file unlockedLink =
     (let parsed = parseFileName E (file_name file)
      in \<lparr>name = heart @ '' '' @ status_source torrent @ '' + AD | '' @ screen @ '' ''
                  @ resolution parsed @ '' | '' @ film @ '' '' @ codec parsed,
          title = tmdb_title tmdbData @ [CHR 0x0A] @ file_name file @ [CHR 0x0A] @ clapper
                  @ '' '' @ source parsed @ '' | '' @ disk @ '' ''
                  @ formatSize E (file_size file),
          url = unlockedLink\<rparr>)"

text \<open>
  The part that the series branch and the movie branch of the file loop share, with the
  key \<open>(s, e)\<close> of the cache slot: the cached entry if there is one, else the unlocked
  and stored entry; \<open>Inr None\<close> is the \<^verbatim>\<open>continue\<close> after a failed unlock.
\<close>

definition cachedOrUnlocked ::
  "env \<Rightarrow> Config \<Rightarrow> string \<Rightarrow> TmdbData \<Rightarrow> UploadStatus \<Rightarrow> VideoFile
     \<Rightarrow> string option \<Rightarrow> string option \<Rightarrow> state \<Rightarrow> (failure + StreamEntry option) \<times> state"
where
  "cachedOrUnlocked E config imdbId tmdbData torrent file s e st =
     (case getCachedStream_call E imdbId s e st of
        (Inl err, st1) \<Rightarrow> (Inl err, st1)
      | (Inr (Some (c0 # cs)), st1) \<Rightarrow> (Inr (Some c0), st1)
      | (Inr cached, (tbl, calls)) \<Rightarrow>
          (let unlockedLink = unlockFileLink E calls (file_link file) config;
               st2 = (tbl, calls @ [UnlockFileLink (file_link file)])
           in if \<not> truthy unlockedLink then (Inr None, st2)
              else (let streamObj = streamObj_of E tmdbData torrent file (string_of unlockedLink)
                    in (case storeStream_call E imdbId s e [streamObj] st2 of
                          (Inl err, st3) \<Rightarrow> (Inl err, st3)
                        | (Inr u, st3) \<Rightarrow> (Inr (Some streamObj), st3)))))"

definition processFile ::
  "env \<Rightarrow> Config \<Rightarrow> string \<Rightarrow> string \<Rightarrow> string option \<Rightarrow> string option \<Rightarrow> TmdbData
     \<Rightarrow> UploadStatus \<Rightarrow> VideoFile \<Rightarrow> StreamEntry list \<Rightarrow> state
     \<Rightarrow> (failure + StreamEntry list) \<times> state"
where
  "processFile E config type imdbId season episode tmdbData torrent file filteredFiles st =
     (let fileName = toLowerCase (file_name file) in
      if type = ''series'' then
        (case episodeRegex fileName of
           None \<Rightarrow> (Inr filteredFiles, st)
         | Some (detectedSeason, detectedEpisode) \<Rightarrow>
             (case cachedOrUnlocked E config imdbId tmdbData torrent file
                     (Some detectedSeason) (Some detectedEpisode) st of
                (Inl err, st1) \<Rightarrow> (Inl err, st1)
              | (Inr None, st1) \<Rightarrow> (Inr filteredFiles, st1)
              | (Inr (Some streamObj), st1) \<Rightarrow>
                  (if Some detectedSeason = map_option padStart2 season \<and>
                      Some detectedEpisode = map_option padStart2 episode \<and>
                      int (length filteredFiles) < FILES_TO_SHOW config
                   then (Inr (filteredFiles @ [streamObj]), st1)
                   else (Inr filteredFiles, st1))))
      else if type = ''movie'' then
        (case cachedOrUnlocked E config imdbId tmdbData torrent file None None st of
           (Inl err, st1) \<Rightarrow> (Inl err, st1)
         | (Inr None, st1) \<Rightarrow> (Inr filteredFiles, st1)
         | (Inr (Some streamObj), st1) \<Rightarrow>
             (if int (length filteredFiles) < FILES_TO_SHOW config
              then (Inr (filteredFiles @ [streamObj]), st1)
              else (Inr filteredFiles, st1)))
      else (Inr filteredFiles, st))"

text \<open>The loop over the video files of one torrent.\<close>

fun processFiles ::
  "env \<Rightarrow> Config \<Rightarrow> string \<Rightarrow> string \<Rightarrow> string option \<Rightarrow> string option \<Rightarrow> TmdbData
     \<Rightarrow> UploadStatus \<Rightarrow> VideoFile list \<Rightarrow> StreamEntry list \<Rightarrow> state
     \<Rightarrow> (failure + StreamEntry list) \<times> state"
where
  "processFiles E config type imdbId season episode tmdbData torrent [] filteredFiles st =
     (Inr filteredFiles, st)"
| "processFiles E config type imdbId season episode tmdbData torrent (file # rest) filteredFiles st =
     (case processFile E config type imdbId season episode tmdbData torrent file filteredFiles st of
        (Inl err, st1) \<Rightarrow> (Inl err, st1)
      | (Inr filteredFiles1, st1) \<Rightarrow>
          processFiles E config type imdbId season episode tmdbData torrent rest filteredFiles1 st1)"

text \<open>The loop over the ready torrents; \<open>streams\<close> is the array the response is built from.\<close>

fun unlockAndAddStreams ::
  "env \<Rightarrow> Config \<Rightarrow> string \<Rightarrow> string \<Rightarrow> string option \<Rightarrow> string option \<Rightarrow> TmdbData
     \<Rightarrow> UploadStatus list \<Rightarrow> StreamEntry list \<Rightarrow> state
     \<Rightarrow> (failure + StreamEntry list) \<times> state"
where
  "unlockAndAddStreams E config type imdbId season episode tmdbData [] streams st =
     (Inr streams, st)"
| "unlockAndAddStreams E config type imdbId season episode tmdbData (torrent # rest) streams st =
     (if int (length streams) \<ge> FILES_TO_SHOW config then (Inr streams, st)
      else (case st of (tbl, calls) \<Rightarrow>
        (let videoFiles =
               getFilesFromMagnetId E calls (status_id torrent) (status_source torrent) config;
             st1 = (tbl, calls @ [GetFilesFromMagnetId (status_id torrent) (status_source torrent)])
         in (case processFiles E config type imdbId season episode tmdbData torrent videoFiles [] st1 of
               (Inl err, st2) \<Rightarrow> (Inl err, st2)
             | (Inr filteredFiles, st2) \<Rightarrow>
                 unlockAndAddStreams E config type imdbId season episode tmdbData rest
                   (streams @ filteredFiles) st2))))"


subsection \<open>The request handler\<close>

text \<open>
  The handler is cut at its early returns. From the last stage to the first:
  \<open>resolveLinks\<close> runs the loop over the ready torrents and the final write to the cache;
  \<open>uploadAndResolve\<close> starts at the test for an empty list of magnets;
  \<open>processResults\<close> starts at the test for empty search results;
  \<open>fetchAndSearch\<close> starts at the catalog lookup;
  \<open>handler\<close> reads the configuration, parses the id and checks the cache.
\<close>

definition resolveLinks ::
  "env \<Rightarrow> Config \<Rightarrow> string \<Rightarrow> string \<Rightarrow> string option \<Rightarrow> string option \<Rightarrow> TmdbData
     \<Rightarrow> UploadStatus list \<Rightarrow> state \<Rightarrow> response \<times> state"
where
  "resolveLinks E config type imdbId season episode tmdbData readyTorrents st =
     (case unlockAndAddStreams E config type imdbId season episode tmdbData readyTorrents [] st of
        (Inl err, st1) \<Rightarrow> (Rejected err, st1)
      | (Inr streams, st1) \<Rightarrow>
          (if length streams > 0
           then (case storeStream_call E imdbId season episode streams st1 of
                   (Inl err, st2) \<Rightarrow> (Rejected err, st2)
                 | (Inr u, st2) \<Rightarrow> (Json streams, st2))
           else (Json streams, st1)))"

definition readyTorrents_of :: "UploadStatus list \<Rightarrow> UploadStatus list" where
  "readyTorrents_of uploadedStatuses = filter (\<lambda>file. ready file = Ready) uploadedStatuses"

definition uploadAndResolve ::
  "env \<Rightarrow> Config \<Rightarrow> string \<Rightarrow> string \<Rightarrow> string option \<Rightarrow> string option \<Rightarrow> TmdbData
     \<Rightarrow> Magnet list \<Rightarrow> state \<Rightarrow> response \<times> state"
where
  "uploadAndResolve E config type imdbId season episode tmdbData magnets st =
     (if length magnets = 0 then (Json [], st)
      else (case st of (tbl, calls) \<Rightarrow>
        (let uploadedStatuses = uploadMagnets E calls magnets config;
             st1 = (tbl, calls @ [UploadMagnets magnets]);
             readyTorrents = readyTorrents_of uploadedStatuses
         in resolveLinks E config type imdbId season episode tmdbData readyTorrents st1)))"

definition processResults ::
  "env \<Rightarrow> Config \<Rightarrow> string \<Rightarrow> string \<Rightarrow> string option \<Rightarrow> string option \<Rightarrow> TmdbData
     \<Rightarrow> SearchResults \<Rightarrow> state \<Rightarrow> response \<times> state"
where
  "processResults E config type imdbId season episode tmdbData combined st =
     (if noResults combined then (Json [], st)
      else (case allTorrents type season episode combined of
              Inl err \<Rightarrow> (Rejected err, st)
            | Inr torrents \<Rightarrow>
                (case resolveHashes E (limitedTorrents config torrents) [] st of
                   (magnets, st1) \<Rightarrow>
                     uploadAndResolve E config type imdbId season episode tmdbData magnets st1)))"

definition fetchAndSearch ::
  "env \<Rightarrow> Config \<Rightarrow> string \<Rightarrow> string \<Rightarrow> string option \<Rightarrow> string option \<Rightarrow> state
     \<Rightarrow> response \<times> state"
where
  "fetchAndSearch E config type imdbId season episode st =
     (case st of (tbl, calls) \<Rightarrow>
        (case getTmdbData E calls imdbId config of
           None \<Rightarrow> (Json [], (tbl, calls @ [GetTmdbData imdbId]))
         | Some tmdbData \<Rightarrow>
             (let calls1 = calls @ [GetTmdbData imdbId];
                  yggResults = searchYgg E calls1 (tmdb_title tmdbData) (tmdb_type tmdbData)
                                 season episode config (frenchTitle tmdbData);
                  calls2 = calls1 @ [SearchYgg (tmdb_title tmdbData) (tmdb_type tmdbData)
                                       season episode];
                  sharewoodResults = searchSharewood E calls2 (tmdb_title tmdbData)
                                       (tmdb_type tmdbData) season episode config;
                  calls3 = calls2 @ [SearchSharewood (tmdb_title tmdbData) (tmdb_type tmdbData)
                                       season episode]
              in processResults E config type imdbId season episode tmdbData
                   (combinedResults yggResults sharewoodResults) (tbl, calls3))))"

text \<open>\<^verbatim>\<open>parts[0]\<close> of a split, which is never the empty array.\<close>

fun first_part :: "string list \<Rightarrow> string" where
  "first_part [] = []"
| "first_part (p # ps) = p"

definition imdbId_of :: "request \<Rightarrow> string" where
  "imdbId_of req = first_part (split CHR '':'' (params_id req))"

definition season_of :: "request \<Rightarrow> string option" where
  "season_of req = part_or_null (split CHR '':'' (params_id req)) 1"

definition episode_of :: "request \<Rightarrow> string option" where
  "episode_of req = part_or_null (split CHR '':'' (params_id req)) 2"

text \<open>
  The handler, run on the table of the cache; it returns the response, the table after
  the request and the calls the request made.
\<close>

definition handler :: "env \<Rightarrow> request \<Rightarrow> row list \<Rightarrow> response \<times> state" where
  "handler E req tbl =
     (case getConfig E req of
        Inl message \<Rightarrow> (Status400 message, (tbl, []))
      | Inr config \<Rightarrow>
          (let type = params_type req;
               imdbId = imdbId_of req;
               season = season_of req;
               episode = episode_of req
           in (case getCachedStream_call E imdbId season episode (tbl, []) of
                 (Inl err, st1) \<Rightarrow> (Rejected err, st1)
               | (Inr (Some cachedStream), st1) \<Rightarrow> (Json cachedStream, st1)
               | (Inr None, st1) \<Rightarrow> fetchAndSearch E config type imdbId season episode st1)))"


section \<open>Notions of the specification\<close>

text \<open>
  ``The title, compared case-insensitively, contains the substring \<open>p\<close>'': after both are
  put in lower case, \<open>p\<close> is a contiguous part of the title.
\<close>

definition contains_ci :: "string \<Rightarrow> string \<Rightarrow> bool" where
  "contains_ci t p = sublist (toLowerCase p) (toLowerCase t)"

text \<open>
  ``The title encodes season \<open>s\<close> and episode \<open>e\<close>'': it contains \<open>S<s2>E<e2>\<close> or
  \<open>S<s2>.E<e2>\<close>, with \<open>s2\<close> and \<open>e2\<close> padded with zeros to two digits.
\<close>

definition title_encodes :: "string \<Rightarrow> string \<Rightarrow> string \<Rightarrow> bool" where
  "title_encodes t s e =
     (contains_ci t (''S'' @ padStart2 s @ ''E'' @ padStart2 e) \<or>
      contains_ci t (''S'' @ padStart2 s @ ''.E'' @ padStart2 e))"


text \<open>A string of exactly two digits, as each capture of the episode pattern is.\<close>

definition twoDigits :: "string \<Rightarrow> bool" where
  "twoDigits s = (length s = 2 \<and> list_all isDigit s)"

text \<open>
  The slots of the cache that the loop over the files reads and writes: in series mode
  a season and an episode of two digits each, in movie mode the slot without season and
  episode.
\<close>

fun slot_of_type :: "string \<Rightarrow> string option \<Rightarrow> string option \<Rightarrow> bool" where
  "slot_of_type type (Some s) (Some e) = (type = ''series'' \<and> twoDigits s \<and> twoDigits e)"
| "slot_of_type type None None = (type = ''movie'')"
| "slot_of_type type _ _ = False"

text \<open>The calls of the loop over the ready torrents.\<close>

fun perFileCall :: "string \<Rightarrow> string \<Rightarrow> call \<Rightarrow> bool" where
  "perFileCall type imdbId (GetCachedStream i s e) = (i = imdbId \<and> slot_of_type type s e)"
| "perFileCall type imdbId (StoreStream i s e xs) =
     (i = imdbId \<and> slot_of_type type s e \<and> length xs = 1)"
| "perFileCall type imdbId (GetFilesFromMagnetId i src) = True"
| "perFileCall type imdbId (UnlockFileLink l) = True"
| "perFileCall type imdbId _ = False"

text \<open>
  What a run of a part of that loop does to the state: it appends calls of the loop, and
  it leaves the reads of every slot that is not a slot of the loop as they were.
\<close>

definition loop_step :: "string \<Rightarrow> string \<Rightarrow> state \<Rightarrow> state \<Rightarrow> bool" where
  "loop_step type imdbId st st' =
     (\<exists>extra. snd st' = snd st @ extra \<and> list_all (perFileCall type imdbId) extra \<and>
        (\<forall>i s e err. \<not> (i = imdbId \<and> slot_of_type type s e) \<longrightarrow>
           getCachedStream err (fst st') i s e = getCachedStream err (fst st) i s e))"


text \<open>The calls to the external services that the handler makes before the loop.\<close>

fun serviceCall :: "call \<Rightarrow> bool" where
  "serviceCall (GetTmdbData i) = True"
| "serviceCall (SearchYgg t ty s e) = True"
| "serviceCall (SearchSharewood t ty s e) = True"
| "serviceCall (GetTorrentHashFromYgg i) = True"
| "serviceCall (UploadMagnets ms) = True"
| "serviceCall _ = False"

text \<open>The hash lookups for a list of candidates: one for each candidate without a hash.\<close>

definition hashLookups :: "CandidateTorrent list \<Rightarrow> call list" where
  "hashLookups torrents =
     map (\<lambda>t. GetTorrentHashFromYgg (torrent_id t))
       (filter (\<lambda>t. \<not> truthy (torrent_hash t)) torrents)"

text \<open>
  The catalog lookup and the two searches of a request, and the merged results the
  handler gets from the two searches when \<open>calls\<close> are the calls made before them.
\<close>

definition searchCalls :: "TmdbData \<Rightarrow> string \<Rightarrow> string option \<Rightarrow> string option \<Rightarrow> call list" where
  "searchCalls tmdbData i s e =
     [GetTmdbData i,
      SearchYgg (tmdb_title tmdbData) (tmdb_type tmdbData) s e,
      SearchSharewood (tmdb_title tmdbData) (tmdb_type tmdbData) s e]"

definition searchResults ::
  "env \<Rightarrow> Config \<Rightarrow> TmdbData \<Rightarrow> string \<Rightarrow> string option \<Rightarrow> string option \<Rightarrow> call list
     \<Rightarrow> SearchResults"
where
  "searchResults E config tmdbData i s e calls =
     combinedResults
       (searchYgg E (calls @ [GetTmdbData i]) (tmdb_title tmdbData) (tmdb_type tmdbData) s e
          config (frenchTitle tmdbData))
       (searchSharewood E
          (calls @ [GetTmdbData i, SearchYgg (tmdb_title tmdbData) (tmdb_type tmdbData) s e])
          (tmdb_title tmdbData) (tmdb_type tmdbData) s e config)"


text \<open>The hash lookups among the calls.\<close>

fun hashLookup :: "call \<Rightarrow> bool" where
  "hashLookup (GetTorrentHashFromYgg i) = True"
| "hashLookup _ = False"

text \<open>A season and an episode that are both present and of two digits each.\<close>

fun twoDigitKey :: "string option \<Rightarrow> string option \<Rightarrow> bool" where
  "twoDigitKey (Some s) (Some e) = (twoDigits s \<and> twoDigits e)"
| "twoDigitKey _ _ = False"

text \<open>The reads and writes of the cache at the slot \<open>(i, s, e)\<close>.\<close>

fun requestSlotCall :: "string \<Rightarrow> string option \<Rightarrow> string option \<Rightarrow> call \<Rightarrow> bool" where
  "requestSlotCall i s e (GetCachedStream i' s' e') = (i' = i \<and> s' = s \<and> e' = e)"
| "requestSlotCall i s e (StoreStream i' s' e' xs) = (i' = i \<and> s' = s \<and> e' = e)"
| "requestSlotCall i s e _ = False"


text \<open>
  The pattern of the file loop, \<^verbatim>\<open>/s(\d{2})e(\d{2})/i\<close>, in the words of its definition:
  at the start of a string stand an \<open>s\<close>, two digits, an \<open>e\<close> and two digits, in either
  case of the letters; the digits are the two captures.
\<close>

definition patternHere :: "string \<Rightarrow> string \<Rightarrow> string \<Rightarrow> bool" where
  "patternHere n ds de =
     (\<exists>a b post. n = a # ds @ b # de @ post \<and>
        (a = CHR ''s'' \<or> a = CHR ''S'') \<and> (b = CHR ''e'' \<or> b = CHR ''E'') \<and>
        twoDigits ds \<and> twoDigits de)"

text \<open>
  The match a search for the pattern returns is the leftmost one: the pattern stands at
  some place of the string and at no place before it.
\<close>

definition leftmostMatch :: "string \<Rightarrow> string \<Rightarrow> string \<Rightarrow> bool" where
  "leftmostMatch n ds de =
     (\<exists>pre rest. n = pre @ rest \<and> patternHere rest ds de \<and>
        (\<forall>k<length pre. \<forall>ds' de'. \<not> patternHere (drop k n) ds' de'))"

text \<open>The pattern stands nowhere in the string.\<close>

definition noMatch :: "string \<Rightarrow> bool" where
  "noMatch n = (\<forall>k ds de. \<not> patternHere (drop k n) ds de)"

text \<open>
  The calls the file loop makes for one file in series mode: none when the pattern is
  not in the lower-cased name of the file; otherwise the read of the slot whose season
  is the first capture and whose episode is the second capture of the leftmost match
  in that name, then, unless the slot was filled, the unlock of the link of the file,
  and then, if the unlock gave a link, the write of one entry to the same slot.
\<close>

definition fileLog :: "string \<Rightarrow> VideoFile \<Rightarrow> call list \<Rightarrow> bool" where
  "fileLog imdbId f seg =
     ((noMatch (toLowerCase (file_name f)) \<and> seg = []) \<or>
      (\<exists>ds de. leftmostMatch (toLowerCase (file_name f)) ds de \<and>
         (seg = [GetCachedStream imdbId (Some ds) (Some de)] \<or>
          seg = [GetCachedStream imdbId (Some ds) (Some de), UnlockFileLink (file_link f)] \<or>
          (\<exists>streamObj.
             seg = [GetCachedStream imdbId (Some ds) (Some de), UnlockFileLink (file_link f),
                    StoreStream imdbId (Some ds) (Some de) [streamObj]]))))"

text \<open>
  The calls for the files of one torrent: those of each file in the order of the
  files, up to the file at which the loop ends.
\<close>

inductive filesLog :: "string \<Rightarrow> VideoFile list \<Rightarrow> call list \<Rightarrow> bool"
  for imdbId :: string
where
  stop: "filesLog imdbId files []"
| next_file: "fileLog imdbId f seg \<Longrightarrow> filesLog imdbId files rest
              \<Longrightarrow> filesLog imdbId (f # files) (seg @ rest)"

text \<open>
  The calls of the loop over the ready torrents after the calls \<open>h\<close>: for each torrent
  in turn the listing of its files, and the calls for the files that this listing
  returned, up to the torrent at which the loop ends.
\<close>

inductive loopLog :: "env \<Rightarrow> Config \<Rightarrow> string \<Rightarrow> call list \<Rightarrow> UploadStatus list \<Rightarrow> call list \<Rightarrow> bool"
  for E :: env and config :: Config and imdbId :: string
where
  stop: "loopLog E config imdbId h torrents []"
| next_torrent:
    "filesLog imdbId (getFilesFromMagnetId E h (status_id t) (status_source t) config) segs
     \<Longrightarrow> loopLog E config imdbId
           (h @ GetFilesFromMagnetId (status_id t) (status_source t) # segs) torrents rest
     \<Longrightarrow> loopLog E config imdbId h (t # torrents)
           (GetFilesFromMagnetId (status_id t) (status_source t) # segs @ rest)"


section \<open>Example data\<close>

definition entry1 :: StreamEntry where
  "entry1 = \<lparr>name = ''YGG + AD'', title = ''Show'', url = ''https://debrid.example/1''\<rparr>"

definition garbled_row :: row where
  "garbled_row = \<lparr>row_imdb_id = ''tt1'', row_season = Some ''1'', row_episode = Some ''2'',
                   streams_json = Some (Garbled ''[{'')\<rparr>"

definition yggSeries :: CandidateTorrent where
  "yggSeries = \<lparr>torrent_title = ''The Show INTEGRALE'', torrent_hash = None,
                torrent_id = Some ''100'', torrent_source = Some ''YGG''\<rparr>"

definition yggEpisode :: CandidateTorrent where
  "yggEpisode = \<lparr>torrent_title = ''The.Show.S01E02.MULTI.1080p'', torrent_hash = None,
                 torrent_id = Some ''101'', torrent_source = Some ''YGG''\<rparr>"

definition yggOtherEpisode :: CandidateTorrent where
  "yggOtherEpisode = \<lparr>torrent_title = ''The.Show.S01E03.MULTI.1080p'', torrent_hash = None,
                      torrent_id = Some ''102'', torrent_source = Some ''YGG''\<rparr>"

definition sharewoodSeries :: CandidateTorrent where
  "sharewoodSeries = \<lparr>torrent_title = ''The Show Complete'', torrent_hash = Some ''aa11'',
                      torrent_id = None, torrent_source = Some ''Sharewood''\<rparr>"

definition sharewoodEpisode :: CandidateTorrent where
  "sharewoodEpisode = \<lparr>torrent_title = ''the show s01.e02 french'', torrent_hash = Some ''bb22'',
                       torrent_id = None, torrent_source = Some ''Sharewood''\<rparr>"

definition noTorrents :: SearchResults where
  "noTorrents = \<lparr>completeSeriesTorrents = [], completeSeasonTorrents = [],
                 episodeTorrents = [], movieTorrents = []\<rparr>"

definition yggScenario :: SearchResults where
  "yggScenario = \<lparr>completeSeriesTorrents = [yggSeries], completeSeasonTorrents = [],
                  episodeTorrents = [yggOtherEpisode, yggEpisode], movieTorrents = []\<rparr>"

definition sharewoodScenario :: SearchResults where
  "sharewoodScenario = \<lparr>completeSeriesTorrents = [sharewoodSeries], completeSeasonTorrents = [],
                        episodeTorrents = [sharewoodEpisode], movieTorrents = []\<rparr>"

text \<open>
  A request for episode 2 of season 1 with two files to show. The search finds two
  packs with a hash and one episode without; both packs are ready; the first holds one
  file of the episode and the second holds two.
\<close>

definition exampleConfig :: Config where
  "exampleConfig = \<lparr>FILES_TO_SHOW = 2, other_settings = ''TMDB_API_KEY=k''\<rparr>"

definition exampleTmdb :: TmdbData where
  "exampleTmdb = \<lparr>tmdb_title = ''The Show'', tmdb_type = ''series'', frenchTitle = None\<rparr>"

definition packA :: CandidateTorrent where
  "packA = \<lparr>torrent_title = ''The Show INTEGRALE A'', torrent_hash = Some ''aaaa'',
            torrent_id = None, torrent_source = Some ''YGG''\<rparr>"

definition packB :: CandidateTorrent where
  "packB = \<lparr>torrent_title = ''The Show INTEGRALE B'', torrent_hash = Some ''bbbb'',
            torrent_id = None, torrent_source = Some ''YGG''\<rparr>"

definition exampleSearch :: SearchResults where
  "exampleSearch = \<lparr>completeSeriesTorrents = [packA, packB], completeSeasonTorrents = [],
                    episodeTorrents = [yggEpisode], movieTorrents = []\<rparr>"

definition status_of :: "string \<Rightarrow> Magnet \<Rightarrow> UploadStatus" where
  "status_of r m = \<lparr>status_hash = magnet_hash m, status_id = magnet_hash m,
                    status_name = magnet_title m, status_source = magnet_source m, ready = r\<rparr>"

definition filesOf :: "string \<Rightarrow> VideoFile list" where
  "filesOf i =
     (if i = ''aaaa''
      then [\<lparr>file_name = ''The.Show.S01E02.mkv'', file_link = ''a1'', file_size = 700\<rparr>]
      else [\<lparr>file_name = ''The.Show.S01E02.HD.mkv'', file_link = ''b1'', file_size = 900\<rparr>,
            \<lparr>file_name = ''The.Show.S01E02.SD.mkv'', file_link = ''b2'', file_size = 300\<rparr>])"

definition exampleEnv :: env where
  "exampleEnv =
     \<lparr>getConfig = (\<lambda>req. Inr exampleConfig),
      sqlite_error = (\<lambda>calls. None),
      getTmdbData = (\<lambda>calls imdbId config. Some exampleTmdb),
      searchYgg = (\<lambda>calls t ty s e config french. exampleSearch),
      searchSharewood = (\<lambda>calls t ty s e config. noTorrents),
      getTorrentHashFromYgg = (\<lambda>calls i. None),
      uploadMagnets = (\<lambda>calls magnets config. map (status_of Ready) magnets),
      getFilesFromMagnetId = (\<lambda>calls i src config. filesOf i),
      unlockFileLink = (\<lambda>calls link config. Some (''https://debrid.example/'' @ link)),
      parseFileName = (\<lambda>n. \<lparr>resolution = ''1080p'', codec = ''x264'', source = ''WEB''\<rparr>),
      formatSize = (\<lambda>n. ''1 GB'')\<rparr>"

definition seriesRequest :: request where
  "seriesRequest = \<lparr>params_variables = ''e30='', params_type = ''series'', params_id = ''tt1:1:2''\<rparr>"

definition seasonlessRequest :: request where
  "seasonlessRequest = \<lparr>params_variables = ''e30='', params_type = ''series'', params_id = ''tt1''\<rparr>"

definition exampleStream :: StreamEntry where
  "exampleStream =
     streamObj_of exampleEnv exampleTmdb (status_of Ready (magnet_of ''aaaa'' packA))
       \<lparr>file_name = ''The.Show.S01E02.mkv'', file_link = ''a1'', file_size = 700\<rparr>
       ''https://debrid.example/a1''"

definition envNoCatalog :: env where
  "envNoCatalog = exampleEnv\<lparr>getTmdbData := (\<lambda>calls imdbId config. None)\<rparr>"

text \<open>Variants of the example in which the request ends early.\<close>

definition envNoResults :: env where
  "envNoResults = exampleEnv\<lparr>searchYgg := (\<lambda>calls t ty s e config french. noTorrents)\<rparr>"

definition envNoHashes :: env where
  "envNoHashes =
     exampleEnv\<lparr>searchYgg :=
       (\<lambda>calls t ty s e config french. noTorrents\<lparr>episodeTorrents := [yggEpisode]\<rparr>)\<rparr>"

definition envNotReady :: env where
  "envNotReady =
     exampleEnv\<lparr>uploadMagnets :=
       (\<lambda>calls magnets config. map (status_of ''Processing'') magnets)\<rparr>"

text \<open>
  Variants of the example with more candidates than twice the files to show, and with a
  negative number of files to show.
\<close>

definition oneFileConfig :: Config where
  "oneFileConfig = \<lparr>FILES_TO_SHOW = 1, other_settings = ''TMDB_API_KEY=k''\<rparr>"

definition negativeConfig :: Config where
  "negativeConfig = \<lparr>FILES_TO_SHOW = - 1, other_settings = ''TMDB_API_KEY=k''\<rparr>"

definition truncSearch :: SearchResults where
  "truncSearch = \<lparr>completeSeriesTorrents = [yggSeries, packA], completeSeasonTorrents = [],
                  episodeTorrents = [yggEpisode], movieTorrents = []\<rparr>"

definition envTruncate :: env where
  "envTruncate =
     exampleEnv\<lparr>getConfig := (\<lambda>req. Inr oneFileConfig),
                searchYgg := (\<lambda>calls t ty s e config french. truncSearch)\<rparr>"

definition envNegative :: env where
  "envNegative = envTruncate\<lparr>getConfig := (\<lambda>req. Inr negativeConfig)\<rparr>"

text \<open>
  A variant of the example in which the first pack also holds a file of another
  episode, and the second pack holds no file.
\<close>

definition siblingFile :: VideoFile where
  "siblingFile = \<lparr>file_name = ''The.Show.S03E07.mkv'', file_link = ''a2'', file_size = 650\<rparr>"

definition envSiblings :: env where
  "envSiblings =
     exampleEnv\<lparr>getFilesFromMagnetId :=
       (\<lambda>calls i src config.
          if i = ''aaaa''
          then [\<lparr>file_name = ''The.Show.S01E02.mkv'', file_link = ''a1'', file_size = 700\<rparr>,
                siblingFile]
          else [])\<rparr>"

definition siblingStream :: StreamEntry where
  "siblingStream =
     streamObj_of exampleEnv exampleTmdb (status_of Ready (magnet_of ''aaaa'' packA))
       siblingFile ''https://debrid.example/a2''"


section \<open>Properties of the strings\<close>

lemma str_includes_sublist: "str_includes t p = sublist p t"
  by (induction t) (auto simp: sublist_Cons_right)

lemma toLowerCase_char_digit: "isDigit c \<Longrightarrow> toLowerCase_char c = c"
  unfolding isDigit_def toLowerCase_char_def by (elim disjE | simp)+

lemma toLowerCase_digits: "\<forall>c\<in>set s. isDigit c \<Longrightarrow> toLowerCase s = s"
  by (induction s) (simp_all add: toLowerCase_def toLowerCase_char_digit)

lemma isDigit_0: "isDigit (CHR ''0'')"
  by (simp add: isDigit_def)

lemma padStart2_digits: "\<forall>c\<in>set s. isDigit c \<Longrightarrow> \<forall>c\<in>set (padStart2 s). isDigit c"
  by (auto simp: padStart2_def isDigit_0)

lemma toLowerCase_append: "toLowerCase (a @ b) = toLowerCase a @ toLowerCase b"
  by (simp add: toLowerCase_def)

lemma toLowerCase_literals:
  "toLowerCase ''S'' = ''s''" "toLowerCase ''E'' = ''e''" "toLowerCase ''.E'' = ''.e''"
  by (simp_all add: toLowerCase_def toLowerCase_char_def)


section \<open>Properties of the stream cache\<close>

lemma where_key_Some:
  "where_key i (Some s) (Some e) r \<longleftrightarrow>
     row_imdb_id r = i \<and> row_season r = Some s \<and> row_episode r = Some e"
  by (cases "row_season r"; cases "row_episode r") (auto simp: where_key_def)

lemma where_key_unique:
  "where_key i s e r \<Longrightarrow> where_key i' s' e' r \<Longrightarrow> i' = i \<and> s' = s \<and> e' = e"
  by (cases "row_season r"; cases "row_episode r"; cases s; cases e; cases s'; cases e')
     (auto simp: where_key_def)

lemma find_append: "find P (xs @ ys) = (case find P xs of Some x \<Rightarrow> Some x | None \<Rightarrow> find P ys)"
  by (induction xs) auto

lemma find_filter_none: "find P (filter (\<lambda>r. \<not> P r) xs) = None"
  by (induction xs) auto

lemma find_filter_other:
  "(\<And>r. Q r \<Longrightarrow> \<not> P r) \<Longrightarrow> find Q (filter (\<lambda>r. \<not> P r) xs) = find Q xs"
  by (induction xs) auto

lemma getCachedStream_error: "getCachedStream (Some m) tbl i s e = Inl m"
  by (simp add: getCachedStream_def db_get_def)

lemma storeStream_error: "storeStream (Some m) tbl i s e xs = Inl m"
  by (simp add: storeStream_def db_run_insert_or_replace_def)

lemma getCachedStream_Inr: "getCachedStream err tbl i s e = Inr x \<Longrightarrow> err = None"
  by (cases err) (simp_all add: getCachedStream_error)

lemma storeStream_Inr: "storeStream err tbl i s e xs = Inr t \<Longrightarrow> err = None"
  by (cases err) (simp_all add: storeStream_error)

text \<open>
  With a season and an episode that are both present, a read after a write returns what
  was written.
\<close>

lemma store_then_get:
  assumes "storeStream err tbl i (Some s) (Some e) xs = Inr tbl'"
  shows "getCachedStream None tbl' i (Some s) (Some e) = Inr (Some xs)"
proof -
  from assms have "err = None" by (rule storeStream_Inr)
  with assms have t: "tbl' = filter (\<lambda>r. \<not> where_key i (Some s) (Some e) r) tbl
        @ [\<lparr>row_imdb_id = i, row_season = Some s, row_episode = Some e,
            streams_json = Some (JSON_stringify xs)\<rparr>]"
    by (simp add: storeStream_def db_run_insert_or_replace_def)
  have "find (where_key i (Some s) (Some e)) tbl'
          = Some \<lparr>row_imdb_id = i, row_season = Some s, row_episode = Some e,
                   streams_json = Some (JSON_stringify xs)\<rparr>"
    unfolding t find_append find_filter_none by (simp add: where_key_def)
  then show ?thesis
    by (simp add: getCachedStream_def db_get_def JSON_stringify_def)
qed

text \<open>A write leaves the reads of every other key as they were.\<close>

lemma store_other_key:
  assumes "storeStream err tbl i s e xs = Inr tbl'" and "(i', s', e') \<noteq> (i, s, e)"
  shows "getCachedStream err' tbl' i' s' e' = getCachedStream err' tbl i' s' e'"
proof -
  from assms(1) have "err = None" by (rule storeStream_Inr)
  with assms(1) have t: "tbl' = filter (\<lambda>r. \<not> where_key i s e r) tbl
        @ [\<lparr>row_imdb_id = i, row_season = s, row_episode = e,
            streams_json = Some (JSON_stringify xs)\<rparr>]"
    by (simp add: storeStream_def db_run_insert_or_replace_def)
  have new: "\<not> where_key i' s' e' \<lparr>row_imdb_id = i, row_season = s, row_episode = e,
            streams_json = Some (JSON_stringify xs)\<rparr>"
    using assms(2) by (cases s; cases e; cases s'; cases e') (auto simp: where_key_def)
  have other: "\<And>r. where_key i' s' e' r \<Longrightarrow> \<not> where_key i s e r"
    using assms(2) where_key_unique by blast
  have "find (where_key i' s' e') tbl' = find (where_key i' s' e') tbl"
    using new by (simp add: t find_append find_filter_other [OF other] split: option.splits)
  then show ?thesis
    by (cases err') (simp_all add: getCachedStream_def db_get_def)
qed

text \<open>
  C4, as the code has it. Both functions reject with the error of the driver exactly
  when the driver reports one. A stored row whose text does not parse is not an error
  for \<open>getCachedStream\<close>: the \<^verbatim>\<open>catch\<close> around \<^verbatim>\<open>JSON.parse\<close> resolves with \<^verbatim>\<open>null\<close>, the
  value of a miss.
\<close>

theorem cache_errors_amended:
  "(err = Some m \<longrightarrow>
      getCachedStream err tbl i s e = Inl m \<and> storeStream err tbl i s e xs = Inl m) \<and>
   (err = None \<longrightarrow>
      (\<exists>c. getCachedStream err tbl i s e = Inr c) \<and>
      (\<exists>t. storeStream err tbl i s e xs = Inr t)) \<and>
   (db_get None tbl i s e = Inr (Some r) \<and> streams_json r = Some (Garbled g) \<longrightarrow>
      getCachedStream None tbl i s e = Inr None)"
  by (auto simp: getCachedStream_def storeStream_def db_get_def db_run_insert_or_replace_def
      split: option.splits sum.splits)

theorem cache_errors_amended_witness:
  "getCachedStream (Some ''SQLITE_IOERR'') [garbled_row] ''tt1'' (Some ''1'') (Some ''2'')
     = Inl ''SQLITE_IOERR'' \<and>
   storeStream (Some ''SQLITE_IOERR'') [garbled_row] ''tt1'' (Some ''1'') (Some ''2'') [entry1]
     = Inl ''SQLITE_IOERR'' \<and>
   db_get None [garbled_row] ''tt1'' (Some ''1'') (Some ''2'') = Inr (Some garbled_row) \<and>
   streams_json garbled_row = Some (Garbled ''[{'') \<and>
   getCachedStream None [garbled_row] ''tt1'' (Some ''1'') (Some ''2'') = Inr None"
proof -
  have row: "db_get None [garbled_row] ''tt1'' (Some ''1'') (Some ''2'') = Inr (Some garbled_row)"
    by (simp add: db_get_def garbled_row_def where_key_def)
  have payload: "streams_json garbled_row = Some (Garbled ''[{'')"
    by (simp add: garbled_row_def)
  from cache_errors_amended
         [of "Some ''SQLITE_IOERR''" "''SQLITE_IOERR''" "[garbled_row]" "''tt1''" "Some ''1''"
             "Some ''2''" "[entry1]" garbled_row "''[{''"]
       row payload
  show ?thesis by blast
qed

text \<open>
  C4, as the claim states it, fails: the row below is stored under the key that is read,
  its text does not parse, and the read reports a miss.
\<close>

theorem cache_decode_error_counterexample:
  "db_get None [garbled_row] ''tt1'' (Some ''1'') (Some ''2'') = Inr (Some garbled_row) \<and>
   getCachedStream None [garbled_row] ''tt1'' (Some ''1'') (Some ''2'') = Inr None"
  by (simp add: getCachedStream_def db_get_def garbled_row_def where_key_def)

text \<open>
  C9 at the key of a movie. The write with a \<^verbatim>\<open>null\<close> season and episode adds the row,
  and the read that follows with the same key finds no row: the \<^verbatim>\<open>WHERE\<close> clause compares
  the columns with NULL by \<^verbatim>\<open>=\<close>, which is never true.
\<close>

theorem movie_key_read_after_write:
  "storeStream None [] ''tt1'' None None [entry1]
     = Inr [\<lparr>row_imdb_id = ''tt1'', row_season = None, row_episode = None,
             streams_json = Some (Stringified [entry1])\<rparr>] \<and>
   getCachedStream None
       [\<lparr>row_imdb_id = ''tt1'', row_season = None, row_episode = None,
         streams_json = Some (Stringified [entry1])\<rparr>] ''tt1'' None None = Inr None"
  by (simp add: storeStream_def db_run_insert_or_replace_def getCachedStream_def db_get_def
      where_key_def JSON_stringify_def)


section \<open>Properties of the loop over the ready torrents\<close>

lemma loop_step_refl: "loop_step type imdbId st st"
  by (simp add: loop_step_def)

lemma loop_step_trans:
  "loop_step type imdbId st st1 \<Longrightarrow> loop_step type imdbId st1 st2 \<Longrightarrow> loop_step type imdbId st st2"
  unfolding loop_step_def
proof (elim exE conjE)
  fix a b
  assume a: "snd st1 = snd st @ a" "list_all (perFileCall type imdbId) a"
    and b: "snd st2 = snd st1 @ b" "list_all (perFileCall type imdbId) b"
    and t1: "\<forall>i s e err. \<not> (i = imdbId \<and> slot_of_type type s e) \<longrightarrow>
           getCachedStream err (fst st1) i s e = getCachedStream err (fst st) i s e"
    and t2: "\<forall>i s e err. \<not> (i = imdbId \<and> slot_of_type type s e) \<longrightarrow>
           getCachedStream err (fst st2) i s e = getCachedStream err (fst st1) i s e"
  have "snd st2 = snd st @ (a @ b)" using a b by simp
  moreover have "list_all (perFileCall type imdbId) (a @ b)" using a b by simp
  moreover have "\<forall>i s e err. \<not> (i = imdbId \<and> slot_of_type type s e) \<longrightarrow>
           getCachedStream err (fst st2) i s e = getCachedStream err (fst st) i s e"
    using t1 t2 by simp
  ultimately show "\<exists>extra. snd st2 = snd st @ extra \<and> list_all (perFileCall type imdbId) extra \<and>
        (\<forall>i s e err. \<not> (i = imdbId \<and> slot_of_type type s e) \<longrightarrow>
           getCachedStream err (fst st2) i s e = getCachedStream err (fst st) i s e)"
    by blast
qed

lemma loop_step_call:
  "perFileCall type imdbId c \<Longrightarrow> loop_step type imdbId (tbl, calls) (tbl, calls @ [c])"
  by (simp add: loop_step_def)

lemma getCachedStream_call_step:
  assumes "slot_of_type type s e"
      and "getCachedStream_call E imdbId s e st = (r, st')"
  shows "loop_step type imdbId st st'"
  using assms
  by (cases st) (auto simp: getCachedStream_call_def loop_step_def split: sum.splits)

lemma storeStream_call_step:
  assumes "slot_of_type type s e"
      and "storeStream_call E imdbId s e [x] st = (r, st')"
  shows "loop_step type imdbId st st'"
proof (cases st)
  case (Pair tbl calls)
  show ?thesis
  proof (cases "storeStream (sqlite_error E calls) tbl imdbId s e [x]")
    case (Inl m)
    with assms Pair show ?thesis
      by (auto simp: storeStream_call_def loop_step_def)
  next
    case (Inr tbl')
    have "getCachedStream err tbl' i' s' e' = getCachedStream err tbl i' s' e'"
      if "\<not> (i' = imdbId \<and> slot_of_type type s' e')" for i' s' e' err
      using store_other_key [OF Inr, of i' s' e' err] that assms(1) by auto
    with assms Pair Inr show ?thesis
      by (auto simp: storeStream_call_def loop_step_def)
  qed
qed

lemma cachedOrUnlocked_step:
  assumes slot: "slot_of_type type s e"
      and run: "cachedOrUnlocked E config imdbId tmdbData torrent file s e st = (r, st')"
  shows "loop_step type imdbId st st'"
proof -
  obtain c st1 where g: "getCachedStream_call E imdbId s e st = (c, st1)"
    by (cases "getCachedStream_call E imdbId s e st")
  have s1: "loop_step type imdbId st st1"
    by (rule getCachedStream_call_step [OF slot g])
  obtain tbl calls where st1: "st1 = (tbl, calls)" by (cases st1)
  let ?st2 = "(tbl, calls @ [UnlockFileLink (file_link file)])"
  have s2: "loop_step type imdbId st1 ?st2"
    unfolding st1 by (rule loop_step_call) simp
  show ?thesis
  proof (cases "st' = st1")
    case True
    with s1 show ?thesis by simp
  next
    case ne1: False
    show ?thesis
    proof (cases "st' = ?st2")
      case True
      with s1 s2 show ?thesis using loop_step_trans by blast
    next
      case ne2: False
      let ?link = "unlockFileLink E calls (file_link file) config"
      let ?obj = "streamObj_of E tmdbData torrent file (string_of ?link)"
      from run g st1 ne1 ne2 have "\<exists>u. storeStream_call E imdbId s e [?obj] ?st2 = (u, st')"
        by (auto simp: cachedOrUnlocked_def Let_def split: sum.splits option.splits list.splits if_splits prod.splits)
      then obtain u where "storeStream_call E imdbId s e [?obj] ?st2 = (u, st')" ..
      from storeStream_call_step [OF slot this] have "loop_step type imdbId ?st2 st'" .
      with s1 s2 show ?thesis using loop_step_trans by blast
    qed
  qed
qed


lemma episodeRegex_here_twoDigits:
  "episodeRegex_here xs = Some (a, b) \<Longrightarrow> twoDigits a \<and> twoDigits b"
  by (induction xs rule: episodeRegex_here.induct) (auto simp: twoDigits_def split: if_splits)

lemma episodeRegex_twoDigits:
  "episodeRegex xs = Some (a, b) \<Longrightarrow> twoDigits a \<and> twoDigits b"
proof (induction xs)
  case Nil
  then show ?case by simp
next
  case (Cons c cs)
  then show ?case
    by (cases "episodeRegex_here (c # cs)") (auto dest: episodeRegex_here_twoDigits)
qed

lemma processFile_step:
  assumes "processFile E config type imdbId season episode tmdbData torrent file filteredFiles st
             = (r, st')"
  shows "loop_step type imdbId st st'"
proof (cases "type = ''series''")
  case series: True
  show ?thesis
  proof (cases "episodeRegex (toLowerCase (file_name file))")
    case None
    with assms series have "st' = st" by (simp add: processFile_def)
    then show ?thesis by (simp add: loop_step_refl)
  next
    case (Some m)
    obtain ds de where m: "m = (ds, de)" by (cases m)
    from Some m have "twoDigits ds \<and> twoDigits de" by (auto dest: episodeRegex_twoDigits)
    with series have slot: "slot_of_type type (Some ds) (Some de)" by simp
    obtain c st1 where c: "cachedOrUnlocked E config imdbId tmdbData torrent file
                             (Some ds) (Some de) st = (c, st1)"
      by (cases "cachedOrUnlocked E config imdbId tmdbData torrent file (Some ds) (Some de) st")
    from assms series Some m c have "st' = st1"
      by (auto simp: processFile_def split: sum.splits option.splits if_splits)
    with cachedOrUnlocked_step [OF slot c] show ?thesis by simp
  qed
next
  case not_series: False
  show ?thesis
  proof (cases "type = ''movie''")
    case True
    then have slot: "slot_of_type type None None" by simp
    obtain c st1 where c: "cachedOrUnlocked E config imdbId tmdbData torrent file None None st
                             = (c, st1)"
      by (cases "cachedOrUnlocked E config imdbId tmdbData torrent file None None st")
    from assms True c have "st' = st1"
      by (auto simp: processFile_def split: sum.splits option.splits if_splits)
    with cachedOrUnlocked_step [OF slot c] show ?thesis by simp
  next
    case False
    with assms not_series have "st' = st" by (simp add: processFile_def)
    then show ?thesis by (simp add: loop_step_refl)
  qed
qed

lemma processFiles_step:
  "processFiles E config type imdbId season episode tmdbData torrent files filteredFiles st
     = (r, st') \<Longrightarrow> loop_step type imdbId st st'"
proof (induction files arbitrary: filteredFiles st)
  case Nil
  then show ?case by (simp add: loop_step_refl)
next
  case (Cons vf rest)
  obtain r1 st1 where f: "processFile E config type imdbId season episode tmdbData torrent vf
                            filteredFiles st = (r1, st1)"
    by (cases "processFile E config type imdbId season episode tmdbData torrent vf
                 filteredFiles st")
  have s1: "loop_step type imdbId st st1" by (rule processFile_step [OF f])
  show ?case
  proof (cases r1)
    case (Inl err)
    with Cons.prems f have "st' = st1" by simp
    with s1 show ?thesis by simp
  next
    case (Inr ff)
    with Cons.prems f
    have "processFiles E config type imdbId season episode tmdbData torrent rest ff st1 = (r, st')"
      by simp
    from Cons.IH [OF this] s1 show ?thesis using loop_step_trans by blast
  qed
qed

lemma unlockAndAddStreams_step:
  "unlockAndAddStreams E config type imdbId season episode tmdbData readyTorrents streams st
     = (r, st') \<Longrightarrow> loop_step type imdbId st st'"
proof (induction readyTorrents arbitrary: streams st)
  case Nil
  then show ?case by (simp add: loop_step_refl)
next
  case (Cons torrent rest)
  show ?case
  proof (cases "int (length streams) \<ge> FILES_TO_SHOW config")
    case True
    with Cons.prems have "st' = st" by simp
    then show ?thesis by (simp add: loop_step_refl)
  next
    case False
    obtain tbl calls where st: "st = (tbl, calls)" by (cases st)
    let ?st1 = "(tbl, calls @ [GetFilesFromMagnetId (status_id torrent) (status_source torrent)])"
    let ?files = "getFilesFromMagnetId E calls (status_id torrent) (status_source torrent) config"
    have s1: "loop_step type imdbId st ?st1"
      unfolding st by (rule loop_step_call) simp
    obtain r2 st2 where f: "processFiles E config type imdbId season episode tmdbData torrent
                              ?files [] ?st1 = (r2, st2)"
      by (cases "processFiles E config type imdbId season episode tmdbData torrent ?files [] ?st1")
    have s2: "loop_step type imdbId ?st1 st2" by (rule processFiles_step [OF f])
    show ?thesis
    proof (cases r2)
      case (Inl err)
      with Cons.prems False st f have "st' = st2" by (simp add: Let_def)
      with s1 s2 show ?thesis using loop_step_trans by blast
    next
      case (Inr ff)
      with Cons.prems False st f
      have "unlockAndAddStreams E config type imdbId season episode tmdbData rest
              (streams @ ff) st2 = (r, st')"
        by (simp add: Let_def)
      from Cons.IH [OF this] s1 s2 show ?thesis using loop_step_trans by blast
    qed
  qed
qed


section \<open>Properties of merging and classifying\<close>

lemma episodeFilter_spec:
  assumes "\<forall>c\<in>set s. isDigit c" and "\<forall>c\<in>set e. isDigit c"
  shows "episodeFilter (Some s) (Some e) torrent = Inr (title_encodes (torrent_title torrent) s e)"
proof -
  have s: "toLowerCase (padStart2 s) = padStart2 s"
    using assms(1) by (intro toLowerCase_digits padStart2_digits)
  have e: "toLowerCase (padStart2 e) = padStart2 e"
    using assms(2) by (intro toLowerCase_digits padStart2_digits)
  have p1: "toLowerCase (''S'' @ padStart2 s @ ''E'' @ padStart2 e)
              = ''s'' @ padStart2 s @ ''e'' @ padStart2 e"
    unfolding toLowerCase_append toLowerCase_literals s e ..
  have p2: "toLowerCase (''S'' @ padStart2 s @ ''.E'' @ padStart2 e)
              = ''s'' @ padStart2 s @ ''.e'' @ padStart2 e"
    unfolding toLowerCase_append toLowerCase_literals s e ..
  show ?thesis
    unfolding episodeFilter_def title_encodes_def contains_ci_def p1 p2
    by (simp add: str_includes_sublist Let_def)
qed

lemma filter_js_total:
  "(\<And>x. x \<in> set xs \<Longrightarrow> p x = Inr (q x)) \<Longrightarrow> filter_js p xs = Inr (filter q xs)"
  by (induction xs) auto

lemma filter_js_Inr: "filter_js p xs = Inr ys \<Longrightarrow> ys = filter (\<lambda>x. p x = Inr True) xs"
  by (induction xs arbitrary: ys) (auto split: sum.splits if_splits)

lemma episodeFilter_present:
  "episodeFilter (Some s) (Some e) x = Inr (episodeFilter (Some s) (Some e) x = Inr True)"
proof -
  obtain b where b: "episodeFilter (Some s) (Some e) x = Inr b"
    by (simp add: episodeFilter_def Let_def)
  show ?thesis unfolding b by simp
qed

lemma title_encodes_yggEpisode: "title_encodes (torrent_title yggEpisode) ''1'' ''2''"
  by code_simp

lemma title_encodes_yggOtherEpisode: "\<not> title_encodes (torrent_title yggOtherEpisode) ''1'' ''2''"
  by code_simp

lemma title_encodes_sharewoodEpisode: "title_encodes (torrent_title sharewoodEpisode) ''1'' ''2''"
  by code_simp

text \<open>
  C6. For a season and an episode written in digits, the episode filter keeps exactly
  the torrents whose title encodes them, in one of the two patterns and in any case.
\<close>

theorem episode_filter_pattern:
  assumes "list_all isDigit s" and "list_all isDigit e"
  shows "filter_js (episodeFilter (Some s) (Some e)) episodes
           = Inr (filter (\<lambda>torrent. title_encodes (torrent_title torrent) s e) episodes)"
proof (rule filter_js_total)
  fix torrent
  from assms have "\<forall>c\<in>set s. isDigit c" and "\<forall>c\<in>set e. isDigit c"
    by (simp_all add: list_all_iff)
  then show "episodeFilter (Some s) (Some e) torrent
               = Inr (title_encodes (torrent_title torrent) s e)"
    by (rule episodeFilter_spec)
qed

theorem episode_filter_pattern_witness:
  "list_all isDigit ''1'' \<and> list_all isDigit ''2'' \<and>
   filter_js (episodeFilter (Some ''1'') (Some ''2''))
       [yggOtherEpisode, yggEpisode, sharewoodEpisode]
     = Inr [yggEpisode, sharewoodEpisode]"
proof -
  have s: "list_all isDigit ''1''" and e: "list_all isDigit ''2''"
    by (simp_all add: isDigit_def)
  have "filter (\<lambda>torrent. title_encodes (torrent_title torrent) ''1'' ''2'')
          [yggOtherEpisode, yggEpisode, sharewoodEpisode] = [yggEpisode, sharewoodEpisode]"
    by (simp only: filter.simps title_encodes_yggEpisode title_encodes_yggOtherEpisode
        title_encodes_sharewoodEpisode if_True if_False)
  with episode_filter_pattern [OF s e, of "[yggOtherEpisode, yggEpisode, sharewoodEpisode]"]
  have "filter_js (episodeFilter (Some ''1'') (Some ''2''))
          [yggOtherEpisode, yggEpisode, sharewoodEpisode] = Inr [yggEpisode, sharewoodEpisode]"
    by (simp only:)
  with s e show ?thesis by (intro conjI)
qed


lemma episodeFilter_examples:
  "episodeFilter (Some ''1'') (Some ''2'') yggEpisode = Inr True"
  "episodeFilter (Some ''1'') (Some ''2'') yggOtherEpisode = Inr False"
  "episodeFilter (Some ''1'') (Some ''2'') sharewoodEpisode = Inr True"
  by code_simp+

text \<open>
  C5. In series mode the candidates are the complete series, then the complete seasons,
  then the episode torrents that pass the filter, each bucket with the items of the
  first source before those of the second in the order of the source; the list is
  produced whenever the season and the episode are present. In movie mode the candidates
  are the movie torrents of the first source followed by those of the second.
\<close>

theorem candidate_order:
  "(type = ''series'' \<and> allTorrents type season episode (combinedResults ygg sw) = Inr torrents \<longrightarrow>
      torrents = (completeSeriesTorrents ygg @ completeSeriesTorrents sw)
               @ (completeSeasonTorrents ygg @ completeSeasonTorrents sw)
               @ (filter (\<lambda>t. episodeFilter season episode t = Inr True) (episodeTorrents ygg)
                  @ filter (\<lambda>t. episodeFilter season episode t = Inr True) (episodeTorrents sw))) \<and>
   (type = ''series'' \<and> season = Some s \<and> episode = Some e \<longrightarrow>
      (\<exists>torrents. allTorrents type season episode (combinedResults ygg sw) = Inr torrents)) \<and>
   (type = ''movie'' \<longrightarrow>
      allTorrents type season episode (combinedResults ygg sw)
        = Inr (movieTorrents ygg @ movieTorrents sw))"
proof (intro conjI impI)
  assume a: "type = ''series'' \<and> allTorrents type season episode (combinedResults ygg sw) = Inr torrents"
  then show "torrents = (completeSeriesTorrents ygg @ completeSeriesTorrents sw)
               @ (completeSeasonTorrents ygg @ completeSeasonTorrents sw)
               @ (filter (\<lambda>t. episodeFilter season episode t = Inr True) (episodeTorrents ygg)
                  @ filter (\<lambda>t. episodeFilter season episode t = Inr True) (episodeTorrents sw))"
    by (auto simp: allTorrents_def combinedResults_def split: sum.splits dest!: filter_js_Inr)
next
  assume a: "type = ''series'' \<and> season = Some s \<and> episode = Some e"
  have "filter_js (episodeFilter (Some s) (Some e)) (episodeTorrents (combinedResults ygg sw))
      = Inr (filter (\<lambda>x. episodeFilter (Some s) (Some e) x = Inr True)
               (episodeTorrents (combinedResults ygg sw)))"
    by (intro filter_js_total episodeFilter_present)
  with a show "\<exists>torrents. allTorrents type season episode (combinedResults ygg sw) = Inr torrents"
    by (simp add: allTorrents_def)
next
  assume "type = ''movie''"
  then show "allTorrents type season episode (combinedResults ygg sw)
        = Inr (movieTorrents ygg @ movieTorrents sw)"
    by (simp add: allTorrents_def combinedResults_def)
qed

theorem candidate_order_witness:
  "allTorrents ''series'' (Some ''1'') (Some ''2'') (combinedResults yggScenario sharewoodScenario)
     = Inr [yggSeries, sharewoodSeries, yggEpisode, sharewoodEpisode] \<and>
   allTorrents ''movie'' None None
       (combinedResults (noTorrents\<lparr>movieTorrents := [yggSeries]\<rparr>)
                        (noTorrents\<lparr>movieTorrents := [sharewoodSeries]\<rparr>))
     = Inr [yggSeries, sharewoodSeries]"
proof -
  from candidate_order [of "''series''" "Some ''1''" "Some ''2''" yggScenario sharewoodScenario
                           _ "''1''" "''2''"]
  obtain torrents where t: "allTorrents ''series'' (Some ''1'') (Some ''2'')
                              (combinedResults yggScenario sharewoodScenario) = Inr torrents"
    by blast
  with candidate_order [of "''series''" "Some ''1''" "Some ''2''" yggScenario sharewoodScenario
                           torrents]
  have "torrents = (completeSeriesTorrents yggScenario @ completeSeriesTorrents sharewoodScenario)
               @ (completeSeasonTorrents yggScenario @ completeSeasonTorrents sharewoodScenario)
               @ (filter (\<lambda>t. episodeFilter (Some ''1'') (Some ''2'') t = Inr True)
                    (episodeTorrents yggScenario)
                  @ filter (\<lambda>t. episodeFilter (Some ''1'') (Some ''2'') t = Inr True)
                      (episodeTorrents sharewoodScenario))"
    by blast
  then have "torrents = [yggSeries, sharewoodSeries, yggEpisode, sharewoodEpisode]"
    by (simp add: yggScenario_def sharewoodScenario_def episodeFilter_examples)
  with t have series: "allTorrents ''series'' (Some ''1'') (Some ''2'')
                         (combinedResults yggScenario sharewoodScenario)
                       = Inr [yggSeries, sharewoodSeries, yggEpisode, sharewoodEpisode]"
    by simp
  from candidate_order [of "''movie''" None None "noTorrents\<lparr>movieTorrents := [yggSeries]\<rparr>"
                           "noTorrents\<lparr>movieTorrents := [sharewoodSeries]\<rparr>"]
  have movie: "allTorrents ''movie'' None None
       (combinedResults (noTorrents\<lparr>movieTorrents := [yggSeries]\<rparr>)
                        (noTorrents\<lparr>movieTorrents := [sharewoodSeries]\<rparr>))
     = Inr [yggSeries, sharewoodSeries]"
    by (simp add: noTorrents_def)
  from series movie show ?thesis ..
qed



section \<open>Properties of the request handler\<close>

lemma resolveHashes_state:
  "snd (resolveHashes E torrents magnets (tbl, calls)) = (tbl, calls @ hashLookups torrents)"
proof (induction torrents arbitrary: magnets calls)
  case Nil
  then show ?case by (simp add: hashLookups_def)
next
  case (Cons t ts)
  show ?case
  proof (cases "truthy (torrent_hash t)")
    case True
    then show ?thesis using Cons.IH by (simp add: hashLookups_def)
  next
    case False
    then show ?thesis using Cons.IH by (simp add: hashLookups_def Let_def)
  qed
qed

lemma serviceCall_hashLookups: "list_all serviceCall (hashLookups torrents)"
  by (simp add: hashLookups_def list_all_iff)

lemma resolveLinks_shape:
  assumes "resolveLinks E config type i s e tmdbData rdy st = (resp, st')"
  shows "(loop_step type i st st' \<and> (resp = Json [] \<or> (\<exists>err. resp = Rejected err))) \<or>
         (\<exists>out st1 u. out \<noteq> [] \<and> loop_step type i st st1 \<and>
            storeStream_call E i s e out st1 = (u, st') \<and>
            (case u of Inr v \<Rightarrow> resp = Json out | Inl err \<Rightarrow> resp = Rejected err))"
proof -
  obtain r st1 where u: "unlockAndAddStreams E config type i s e tmdbData rdy [] st = (r, st1)"
    by (cases "unlockAndAddStreams E config type i s e tmdbData rdy [] st")
  have step: "loop_step type i st st1" by (rule unlockAndAddStreams_step [OF u])
  show ?thesis
  proof (cases r)
    case (Inl err)
    with assms u step show ?thesis by (auto simp: resolveLinks_def)
  next
    case (Inr out)
    show ?thesis
    proof (cases "out = []")
      case True
      with assms u step Inr show ?thesis by (auto simp: resolveLinks_def)
    next
      case False
      obtain v st2 where w: "storeStream_call E i s e out st1 = (v, st2)"
        by (cases "storeStream_call E i s e out st1")
      with assms u Inr False have "st' = st2 \<and> (case v of Inr x \<Rightarrow> resp = Json out | Inl err \<Rightarrow> resp = Rejected err)"
        by (auto simp: resolveLinks_def split: sum.splits)
      with False step w show ?thesis by blast
    qed
  qed
qed

text \<open>The stages before the loop.\<close>

lemma uploadAndResolve_shape:
  assumes "uploadAndResolve E config type i s e tmdbData magnets (tbl, calls) = (resp, st')"
  shows "(magnets = [] \<and> resp = Json [] \<and> st' = (tbl, calls)) \<or>
         (magnets \<noteq> [] \<and>
          resolveLinks E config type i s e tmdbData
            (readyTorrents_of (uploadMagnets E calls magnets config))
            (tbl, calls @ [UploadMagnets magnets]) = (resp, st'))"
  using assms by (auto simp: uploadAndResolve_def Let_def split: if_splits)

lemma processResults_shape:
  assumes "processResults E config type i s e tmdbData combined (tbl, calls) = (resp, st')"
  shows "(noResults combined \<and> resp = Json [] \<and> st' = (tbl, calls)) \<or>
         (\<exists>err. \<not> noResults combined \<and> allTorrents type s e combined = Inl err \<and>
            resp = Rejected err \<and> st' = (tbl, calls)) \<or>
         (\<exists>torrents. \<not> noResults combined \<and> allTorrents type s e combined = Inr torrents \<and>
            uploadAndResolve E config type i s e tmdbData
              (fst (resolveHashes E (limitedTorrents config torrents) [] (tbl, calls)))
              (tbl, calls @ hashLookups (limitedTorrents config torrents)) = (resp, st'))"
proof (cases "noResults combined")
  case True
  with assms show ?thesis by (simp add: processResults_def)
next
  case False
  show ?thesis
  proof (cases "allTorrents type s e combined")
    case (Inl err)
    then show ?thesis using assms False by (auto simp: processResults_def)
  next
    case (Inr torrents)
    obtain magnets st1 where r: "resolveHashes E (limitedTorrents config torrents) [] (tbl, calls) = (magnets, st1)"
      by (cases "resolveHashes E (limitedTorrents config torrents) [] (tbl, calls)")
    with resolveHashes_state [of E "limitedTorrents config torrents" "[]" tbl calls]
    have "st1 = (tbl, calls @ hashLookups (limitedTorrents config torrents))" by simp
    with assms False Inr r show ?thesis by (auto simp: processResults_def)
  qed
qed


lemma fetchAndSearch_shape:
  assumes "fetchAndSearch E config type i s e (tbl, calls) = (resp, st')"
  shows "(getTmdbData E calls i config = None \<and> resp = Json [] \<and>
            st' = (tbl, calls @ [GetTmdbData i])) \<or>
         (\<exists>tmdbData. getTmdbData E calls i config = Some tmdbData \<and>
            processResults E config type i s e tmdbData
              (searchResults E config tmdbData i s e calls)
              (tbl, calls @ searchCalls tmdbData i s e) = (resp, st'))"
  using assms
  by (cases "getTmdbData E calls i config")
     (auto simp: fetchAndSearch_def searchResults_def searchCalls_def Let_def)

lemma handler_shape:
  assumes "getConfig E req = Inr config"
      and "handler E req tbl = (resp, st')"
  shows "(\<exists>m. getCachedStream (sqlite_error E []) tbl (imdbId_of req) (season_of req)
                 (episode_of req) = Inl m \<and>
              resp = Rejected (CacheError m) \<and>
              st' = (tbl, [GetCachedStream (imdbId_of req) (season_of req) (episode_of req)])) \<or>
         (\<exists>c. getCachedStream (sqlite_error E []) tbl (imdbId_of req) (season_of req)
                 (episode_of req) = Inr (Some c) \<and>
              resp = Json c \<and>
              st' = (tbl, [GetCachedStream (imdbId_of req) (season_of req) (episode_of req)])) \<or>
         (getCachedStream (sqlite_error E []) tbl (imdbId_of req) (season_of req)
                 (episode_of req) = Inr None \<and>
          fetchAndSearch E config (params_type req) (imdbId_of req) (season_of req)
              (episode_of req)
              (tbl, [GetCachedStream (imdbId_of req) (season_of req) (episode_of req)])
            = (resp, st'))"
  using assms
  by (auto simp: handler_def getCachedStream_call_def Let_def split: sum.splits option.splits)

lemma serviceCall_searchCalls: "list_all serviceCall (searchCalls tmdbData i s e)"
  by (simp add: searchCalls_def)

text \<open>Every run of the handler that passes the configuration, in one statement.\<close>

lemma handler_run:
  assumes cfg: "getConfig E req = Inr config"
      and run: "handler E req tbl = (resp, st')"
  defines "i \<equiv> imdbId_of req" and "s \<equiv> season_of req" and "e \<equiv> episode_of req"
  shows "\<exists>pre. list_all serviceCall pre \<and>
           ((st' = (tbl, GetCachedStream i s e # pre) \<and>
             (resp = Json [] \<or> (\<exists>err. resp = Rejected err) \<or>
              (pre = [] \<and> (\<exists>c. resp = Json c \<and>
                  getCachedStream (sqlite_error E []) tbl i s e = Inr (Some c))))) \<or>
            (\<exists>tmdbData rdy.
               resolveLinks E config (params_type req) i s e tmdbData rdy
                 (tbl, GetCachedStream i s e # pre) = (resp, st')))"
proof -
  let ?c0 = "GetCachedStream i s e"
  from handler_shape [OF cfg run]
  consider (err) m where "resp = Rejected (CacheError m)" "st' = (tbl, [?c0])"
    | (hit) c where "getCachedStream (sqlite_error E []) tbl i s e = Inr (Some c)"
        "resp = Json c" "st' = (tbl, [?c0])"
    | (miss) "fetchAndSearch E config (params_type req) i s e (tbl, [?c0]) = (resp, st')"
    unfolding i_def s_def e_def by blast
  then show ?thesis
  proof cases
    case err
    then show ?thesis by (intro exI [of _ "[]"]) simp
  next
    case hit
    then show ?thesis by (intro exI [of _ "[]"]) simp
  next
    case miss
    from fetchAndSearch_shape [OF miss]
    consider (nocat) "resp = Json []" "st' = (tbl, [?c0] @ [GetTmdbData i])"
      | (cat) tmdbData where "processResults E config (params_type req) i s e tmdbData
              (searchResults E config tmdbData i s e [?c0])
              (tbl, [?c0] @ searchCalls tmdbData i s e) = (resp, st')"
      by blast
    then show ?thesis
    proof cases
      case nocat
      then show ?thesis by (intro exI [of _ "[GetTmdbData i]"]) simp
    next
      case cat
      let ?pre1 = "searchCalls tmdbData i s e"
      from processResults_shape [OF cat]
      consider (early) "st' = (tbl, [?c0] @ ?pre1)" "resp = Json [] \<or> (\<exists>err. resp = Rejected err)"
        | (hashes) torrents where
            "uploadAndResolve E config (params_type req) i s e tmdbData
              (fst (resolveHashes E (limitedTorrents config torrents) [] (tbl, [?c0] @ ?pre1)))
              (tbl, ([?c0] @ ?pre1) @ hashLookups (limitedTorrents config torrents)) = (resp, st')"
        by blast
      then show ?thesis
      proof cases
        case early
        then show ?thesis
          by (intro exI [of _ ?pre1]) (auto simp: serviceCall_searchCalls)
      next
        case hashes
        let ?pre2 = "?pre1 @ hashLookups (limitedTorrents config torrents)"
        let ?magnets = "fst (resolveHashes E (limitedTorrents config torrents) [] (tbl, [?c0] @ ?pre1))"
        have p2: "list_all serviceCall ?pre2"
          by (simp add: serviceCall_searchCalls serviceCall_hashLookups)
        from uploadAndResolve_shape [OF hashes]
        consider (nomagnets) "resp = Json []" "st' = (tbl, ([?c0] @ ?pre1) @ hashLookups (limitedTorrents config torrents))"
          | (upload) "resolveLinks E config (params_type req) i s e tmdbData
            (readyTorrents_of (uploadMagnets E (([?c0] @ ?pre1) @ hashLookups (limitedTorrents config torrents)) ?magnets config))
            ((tbl, (([?c0] @ ?pre1) @ hashLookups (limitedTorrents config torrents)) @ [UploadMagnets ?magnets])) = (resp, st')"
          by blast
        then show ?thesis
        proof cases
          case nomagnets
          with p2 show ?thesis by (intro exI [of _ ?pre2]) simp
        next
          case upload
          have "list_all serviceCall (?pre2 @ [UploadMagnets ?magnets])"
            using p2 by simp
          with upload show ?thesis
            by (intro exI [of _ "?pre2 @ [UploadMagnets ?magnets]"]) auto
        qed
      qed
    qed
  qed
qed


lemma handler_outcome:
  assumes cfg: "getConfig E req = Inr config"
      and run: "handler E req tbl = (resp, st')"
  defines "i \<equiv> imdbId_of req" and "s \<equiv> season_of req" and "e \<equiv> episode_of req"
  shows "\<exists>pre st1. list_all serviceCall pre \<and>
           loop_step (params_type req) i (tbl, GetCachedStream i s e # pre) st1 \<and>
           ((st' = st1 \<and>
             (resp = Json [] \<or> (\<exists>err. resp = Rejected err) \<or>
              (st1 = (tbl, [GetCachedStream i s e]) \<and> (\<exists>c. resp = Json c \<and>
                  getCachedStream (sqlite_error E []) tbl i s e = Inr (Some c))))) \<or>
            (\<exists>out u. out \<noteq> [] \<and> storeStream_call E i s e out st1 = (u, st') \<and>
               (case u of Inr v \<Rightarrow> resp = Json out | Inl err \<Rightarrow> resp = Rejected err)))"
proof -
  from handler_run [OF cfg run]
  obtain pre where pre: "list_all serviceCall pre"
    and alt: "(st' = (tbl, GetCachedStream i s e # pre) \<and>
             (resp = Json [] \<or> (\<exists>err. resp = Rejected err) \<or>
              (pre = [] \<and> (\<exists>c. resp = Json c \<and>
                  getCachedStream (sqlite_error E []) tbl i s e = Inr (Some c))))) \<or>
            (\<exists>tmdbData rdy.
               resolveLinks E config (params_type req) i s e tmdbData rdy
                 (tbl, GetCachedStream i s e # pre) = (resp, st'))"
    unfolding i_def s_def e_def by blast
  from alt show ?thesis
  proof
    assume early: "st' = (tbl, GetCachedStream i s e # pre) \<and>
             (resp = Json [] \<or> (\<exists>err. resp = Rejected err) \<or>
              (pre = [] \<and> (\<exists>c. resp = Json c \<and>
                  getCachedStream (sqlite_error E []) tbl i s e = Inr (Some c))))"
    have "loop_step (params_type req) i (tbl, GetCachedStream i s e # pre)
            (tbl, GetCachedStream i s e # pre)"
      by (rule loop_step_refl)
    with pre early show ?thesis by blast
  next
    assume "\<exists>tmdbData rdy.
               resolveLinks E config (params_type req) i s e tmdbData rdy
                 (tbl, GetCachedStream i s e # pre) = (resp, st')"
    then obtain tmdbData rdy where
      "resolveLinks E config (params_type req) i s e tmdbData rdy
                 (tbl, GetCachedStream i s e # pre) = (resp, st')" by blast
    from resolveLinks_shape [OF this] pre show ?thesis by blast
  qed
qed

lemma handler_Json_config: "handler E req tbl = (Json x, st) \<Longrightarrow> \<exists>config. getConfig E req = Inr config"
  by (cases "getConfig E req") (simp_all add: handler_def)

lemma json_then_cached:
  assumes run: "handler E req tbl = (Json streams, (tbl', calls))"
      and ne: "streams \<noteq> []"
      and s: "season_of req = Some s" and e: "episode_of req = Some e"
  shows "getCachedStream None tbl' (imdbId_of req) (Some s) (Some e) = Inr (Some streams)"
proof -
  from handler_Json_config [OF run] obtain config where cfg: "getConfig E req = Inr config" ..
  from handler_outcome [OF cfg run]
  obtain pre st1 where
    alt: "((tbl', calls) = st1 \<and>
             (Json streams = Json [] \<or> (\<exists>err. Json streams = Rejected err) \<or>
              (st1 = (tbl, [GetCachedStream (imdbId_of req) (Some s) (Some e)]) \<and>
               (\<exists>c. Json streams = Json c \<and>
                  getCachedStream (sqlite_error E []) tbl (imdbId_of req) (Some s) (Some e)
                    = Inr (Some c))))) \<or>
            (\<exists>out u. out \<noteq> [] \<and>
               storeStream_call E (imdbId_of req) (Some s) (Some e) out st1 = (u, (tbl', calls)) \<and>
               (case u of Inr v \<Rightarrow> Json streams = Json out | Inl err \<Rightarrow> Json streams = Rejected err))"
    unfolding s e by blast
  from alt show ?thesis
  proof
    assume "(tbl', calls) = st1 \<and>
             (Json streams = Json [] \<or> (\<exists>err. Json streams = Rejected err) \<or>
              (st1 = (tbl, [GetCachedStream (imdbId_of req) (Some s) (Some e)]) \<and>
               (\<exists>c. Json streams = Json c \<and>
                  getCachedStream (sqlite_error E []) tbl (imdbId_of req) (Some s) (Some e)
                    = Inr (Some c))))"
    with ne have t: "tbl' = tbl"
      and g: "getCachedStream (sqlite_error E []) tbl (imdbId_of req) (Some s) (Some e)
                = Inr (Some streams)"
      by auto
    from getCachedStream_Inr [OF g] g t show ?thesis by simp
  next
    assume "\<exists>out u. out \<noteq> [] \<and>
               storeStream_call E (imdbId_of req) (Some s) (Some e) out st1 = (u, (tbl', calls)) \<and>
               (case u of Inr v \<Rightarrow> Json streams = Json out | Inl err \<Rightarrow> Json streams = Rejected err)"
    then obtain out u where
      w: "storeStream_call E (imdbId_of req) (Some s) (Some e) out st1 = (u, (tbl', calls))"
      and u: "case u of Inr v \<Rightarrow> Json streams = Json out | Inl err \<Rightarrow> Json streams = Rejected err"
      by blast
    from u have out: "out = streams" and inr: "\<exists>v. u = Inr v" by (cases u; simp)+
    obtain tbl1 calls1 where st1: "st1 = (tbl1, calls1)" by (cases st1)
    from w inr out st1 have "storeStream (sqlite_error E calls1) tbl1 (imdbId_of req) (Some s) (Some e) streams = Inr tbl'"
      by (auto simp: storeStream_call_def split: sum.splits)
    then show ?thesis by (rule store_then_get)
  qed
qed



lemma storeStream_call_calls:
  "storeStream_call E i s e out st = (u, st') \<Longrightarrow> snd st' = snd st @ [StoreStream i s e out]"
  by (cases st) (auto simp: storeStream_call_def split: sum.splits)

lemma resolveLinks_calls:
  assumes "resolveLinks E config type i s e tmdbData rdy (tbl, calls) = (resp, (tbl', calls'))"
  shows "\<exists>loop fin. calls' = calls @ loop @ fin \<and> list_all (perFileCall type i) loop \<and>
           (fin = [] \<or> (\<exists>out. out \<noteq> [] \<and> fin = [StoreStream i s e out]))"
proof -
  from resolveLinks_shape [OF assms]
  consider (plain) "loop_step type i (tbl, calls) (tbl', calls')"
    | (stored) out st1 u where "out \<noteq> []" "loop_step type i (tbl, calls) st1"
        "storeStream_call E i s e out st1 = (u, (tbl', calls'))"
    by blast
  then show ?thesis
  proof cases
    case plain
    then obtain loop where "calls' = calls @ loop" "list_all (perFileCall type i) loop"
      by (auto simp: loop_step_def)
    then show ?thesis by (intro exI [of _ loop] exI [of _ "[]"]) simp
  next
    case stored
    from stored(2) obtain loop where l: "snd st1 = calls @ loop" "list_all (perFileCall type i) loop"
      by (auto simp: loop_step_def)
    from storeStream_call_calls [OF stored(3)] l(1)
    have "calls' = calls @ loop @ [StoreStream i s e out]" by simp
    with l(2) stored(1) show ?thesis by blast
  qed
qed

lemma perFileCall_not_hash: "perFileCall type i c \<Longrightarrow> \<not> hashLookup c"
  by (cases c) simp_all

lemma filter_hash_loop: "list_all (perFileCall type i) loop \<Longrightarrow> filter hashLookup loop = []"
  by (induction loop) (auto dest: perFileCall_not_hash)

lemma filter_hash_hashLookups: "filter hashLookup (hashLookups torrents) = hashLookups torrents"
  by (induction torrents) (simp_all add: hashLookups_def)

lemma filter_hash_searchCalls: "filter hashLookup (searchCalls tmdbData i s e) = []"
  by (simp add: searchCalls_def)


lemma slice0_nonneg: "0 \<le> n \<Longrightarrow> slice0 n xs = take (nat n) xs"
  by (simp add: slice0_def min_def)

lemma limitedTorrents_nonneg:
  "0 \<le> FILES_TO_SHOW config \<Longrightarrow>
     limitedTorrents config ts = take (nat (2 * FILES_TO_SHOW config)) ts"
  by (simp add: limitedTorrents_def slice0_nonneg mult.commute)

lemma upload_hash_lookups:
  assumes "uploadAndResolve E config type i s e tmdbData magnets (tbl, pre @ hs) = (resp, (tbl', calls))"
      and "filter hashLookup pre = []" and "filter hashLookup hs = hs"
  shows "filter hashLookup calls = hs"
proof -
  from uploadAndResolve_shape [OF assms(1)]
  consider (nomagnets) "calls = pre @ hs"
    | (upload) rdy where
        "resolveLinks E config type i s e tmdbData rdy
           (tbl, (pre @ hs) @ [UploadMagnets magnets]) = (resp, (tbl', calls))"
    by auto
  then show ?thesis
  proof cases
    case nomagnets
    with assms(2,3) show ?thesis by simp
  next
    case upload
    from resolveLinks_calls [OF upload]
    obtain loop fin where c: "calls = ((pre @ hs) @ [UploadMagnets magnets]) @ loop @ fin"
      and l: "list_all (perFileCall type i) loop"
      and f: "fin = [] \<or> (\<exists>out. out \<noteq> [] \<and> fin = [StoreStream i s e out])"
      by blast
    from f have "filter hashLookup fin = []" by auto
    with c filter_hash_loop [OF l] assms(2,3) show ?thesis by simp
  qed
qed

lemma hash_lookups_of_run:
  assumes cfg: "getConfig E req = Inr config"
      and run: "handler E req tbl = (resp, (tbl', calls))"
  defines "i \<equiv> imdbId_of req" and "s \<equiv> season_of req" and "e \<equiv> episode_of req"
  shows "filter hashLookup calls = [] \<or>
          (\<exists>tmdbData torrents.
             getTmdbData E [GetCachedStream i s e] i config = Some tmdbData \<and>
             allTorrents (params_type req) s e
               (searchResults E config tmdbData i s e [GetCachedStream i s e]) = Inr torrents \<and>
             filter hashLookup calls = hashLookups (limitedTorrents config torrents))"
proof -
  let ?c0 = "GetCachedStream i s e"
  from handler_shape [OF cfg run]
  consider (direct) "calls = [?c0]"
    | (miss) "fetchAndSearch E config (params_type req) i s e (tbl, [?c0]) = (resp, (tbl', calls))"
    unfolding i_def s_def e_def by auto
  then show ?thesis
  proof cases
    case direct
    then show ?thesis by simp
  next
    case miss
    from fetchAndSearch_shape [OF miss]
    consider (nocat) "calls = [?c0] @ [GetTmdbData i]"
      | (cat) tmdbData where "getTmdbData E [?c0] i config = Some tmdbData"
          "processResults E config (params_type req) i s e tmdbData
              (searchResults E config tmdbData i s e [?c0])
              (tbl, [?c0] @ searchCalls tmdbData i s e) = (resp, (tbl', calls))"
      by auto
    then show ?thesis
    proof cases
      case nocat
      then show ?thesis by simp
    next
      case cat
      let ?pre = "[?c0] @ searchCalls tmdbData i s e"
      have pre: "filter hashLookup ?pre = []" by (simp add: filter_hash_searchCalls)
      from processResults_shape [OF cat(2)]
      consider (early) "calls = ?pre"
        | (hashes) torrents where
            "allTorrents (params_type req) s e
               (searchResults E config tmdbData i s e [?c0]) = Inr torrents"
            "uploadAndResolve E config (params_type req) i s e tmdbData
              (fst (resolveHashes E (limitedTorrents config torrents) [] (tbl, ?pre)))
              (tbl, ?pre @ hashLookups (limitedTorrents config torrents)) = (resp, (tbl', calls))"
        by auto
      then show ?thesis
      proof cases
        case early
        with pre show ?thesis by simp
      next
        case hashes
        from upload_hash_lookups [OF hashes(2) pre filter_hash_hashLookups]
        have "filter hashLookup calls = hashLookups (limitedTorrents config torrents)" .
        with hashes(1) cat(1) show ?thesis by blast
      qed
    qed
  qed
qed

lemma hash_lookups_when_reached:
  assumes cfg: "getConfig E req = Inr config"
      and run: "handler E req tbl = (resp, (tbl', calls))"
      and miss: "getCachedStream (sqlite_error E []) tbl (imdbId_of req) (season_of req)
                   (episode_of req) = Inr None"
      and cat: "getTmdbData E [GetCachedStream (imdbId_of req) (season_of req) (episode_of req)]
                  (imdbId_of req) config = Some tmdbData"
      and res: "\<not> noResults (searchResults E config tmdbData (imdbId_of req) (season_of req)
                   (episode_of req)
                   [GetCachedStream (imdbId_of req) (season_of req) (episode_of req)])"
      and all: "allTorrents (params_type req) (season_of req) (episode_of req)
                  (searchResults E config tmdbData (imdbId_of req) (season_of req)
                     (episode_of req)
                     [GetCachedStream (imdbId_of req) (season_of req) (episode_of req)])
                  = Inr torrents"
  shows "filter hashLookup calls = hashLookups (limitedTorrents config torrents)"
proof -
  let ?i = "imdbId_of req" and ?s = "season_of req" and ?e = "episode_of req"
  let ?c0 = "GetCachedStream ?i ?s ?e"
  let ?pre = "[?c0] @ searchCalls tmdbData ?i ?s ?e"
  have "handler E req tbl = fetchAndSearch E config (params_type req) ?i ?s ?e (tbl, [?c0])"
    using cfg miss by (simp add: handler_def getCachedStream_call_def Let_def)
  also have "\<dots> = processResults E config (params_type req) ?i ?s ?e tmdbData
                     (searchResults E config tmdbData ?i ?s ?e [?c0]) (tbl, ?pre)"
    using cat by (simp add: fetchAndSearch_def searchResults_def searchCalls_def Let_def)
  also have "\<dots> = uploadAndResolve E config (params_type req) ?i ?s ?e tmdbData
                     (fst (resolveHashes E (limitedTorrents config torrents) [] (tbl, ?pre)))
                     (tbl, ?pre @ hashLookups (limitedTorrents config torrents))"
    using res all resolveHashes_state [of E "limitedTorrents config torrents" "[]" tbl ?pre]
    by (simp add: processResults_def case_prod_beta)
  finally have "uploadAndResolve E config (params_type req) ?i ?s ?e tmdbData
                     (fst (resolveHashes E (limitedTorrents config torrents) [] (tbl, ?pre)))
                     (tbl, ?pre @ hashLookups (limitedTorrents config torrents))
                  = (resp, (tbl', calls))"
    using run by simp
  moreover have "filter hashLookup ?pre = []" by (simp add: filter_hash_searchCalls)
  ultimately show ?thesis
    using filter_hash_hashLookups by (rule upload_hash_lookups)
qed


section \<open>The example requests\<close>

lemmas route_defs =
  handler_def imdbId_of_def season_of_def episode_of_def part_or_null_def
  getCachedStream_call_def getCachedStream_def db_get_def fetchAndSearch_def
  processResults_def combinedResults_def noResults_def allTorrents_def episodeFilter_def
  limitedTorrents_def slice0_def magnet_of_def source_or_Unknown_def
  uploadAndResolve_def readyTorrents_of_def resolveLinks_def processFile_def
  cachedOrUnlocked_def storeStream_call_def storeStream_def db_run_insert_or_replace_def
  where_key_def toLowerCase_def toLowerCase_char_def isDigit_def padStart2_def
  streamObj_of_def JSON_stringify_def Let_def

lemmas example_defs =
  exampleEnv_def exampleConfig_def exampleTmdb_def packA_def packB_def exampleSearch_def
  status_of_def filesOf_def seriesRequest_def seasonlessRequest_def exampleStream_def
  noTorrents_def yggEpisode_def

lemma example_parse:
  "imdbId_of seriesRequest = ''tt1''" "season_of seriesRequest = Some ''1''"
  "episode_of seriesRequest = Some ''2''"
  "imdbId_of seasonlessRequest = ''tt1''" "season_of seasonlessRequest = None"
  "episode_of seasonlessRequest = None"
  by (simp_all add: imdbId_of_def season_of_def episode_of_def part_or_null_def
      seriesRequest_def seasonlessRequest_def)

lemma example_type: "params_type seriesRequest = ''series''"
  by (simp add: seriesRequest_def)

lemma example_run_response:
  "fst (handler exampleEnv seriesRequest []) = Json [exampleStream, exampleStream, exampleStream]"
  by (simp add: route_defs example_defs)

lemma example_seasonless:
  "handler exampleEnv seasonlessRequest []
     = (Rejected TypeError,
        ([], GetCachedStream ''tt1'' None None # searchCalls exampleTmdb ''tt1'' None None))"
  by (simp add: route_defs example_defs searchCalls_def)



text \<open>
  C1 on the example request. With \<open>FILES_TO_SHOW = 2\<close> the handler answers with three
  entries: the first ready torrent gives one, the test at the top of the loop still
  passes, and the second ready torrent adds two (the bound inside the file loop counts
  the entries of the current torrent only).
\<close>

theorem cap_exceeded:
  "getConfig exampleEnv seriesRequest = Inr exampleConfig \<and>
   FILES_TO_SHOW exampleConfig = 2 \<and>
   fst (handler exampleEnv seriesRequest []) = Json [exampleStream, exampleStream, exampleStream]"
  using example_run_response by (simp add: exampleEnv_def exampleConfig_def)

text \<open>
  C3 on a series request whose id has no season and no episode. The configuration is
  read, the searches return an episode torrent, and the callback of the episode filter
  calls \<open>padStart\<close> on \<^verbatim>\<open>null\<close>: the handler ends with a \<open>TypeError\<close> and sends no response.
\<close>

theorem seasonless_series_request:
  "getConfig exampleEnv seasonlessRequest = Inr exampleConfig \<and>
   handler exampleEnv seasonlessRequest []
     = (Rejected TypeError,
        ([], GetCachedStream ''tt1'' None None # searchCalls exampleTmdb ''tt1'' None None))"
  using example_seasonless by (simp add: exampleEnv_def)


section \<open>Repeated requests\<close>

text \<open>
  C2, as the code has it. When a request whose id carries a season and an episode is
  answered with a sequence of streams that is not empty, the same request on the table
  it leaves is answered with the same sequence, and its only call is the read of the
  cache.
\<close>

theorem repeated_request_from_cache:
  assumes run: "handler E req tbl = (Json streams, (tbl', calls))"
      and ne: "streams \<noteq> []"
      and s: "season_of req = Some s" and e: "episode_of req = Some e"
  shows "handler E req tbl'
           = (Json streams, (tbl', [GetCachedStream (imdbId_of req) (Some s) (Some e)]))"
proof -
  from handler_Json_config [OF run] obtain config where cfg: "getConfig E req = Inr config" ..
  have first: "sqlite_error E [] = None"
  proof (cases "sqlite_error E []")
    case None then show ?thesis .
  next
    case (Some m)
    with run cfg show ?thesis
      by (simp add: handler_def getCachedStream_call_def getCachedStream_error)
  qed
  from json_then_cached [OF run ne s e]
  have "getCachedStream None tbl' (imdbId_of req) (Some s) (Some e) = Inr (Some streams)" .
  with cfg first s e show ?thesis
    by (simp add: handler_def getCachedStream_call_def)
qed


theorem repeated_request_from_cache_witness:
  "fst (handler exampleEnv seriesRequest []) = Json [exampleStream, exampleStream, exampleStream] \<and>
   season_of seriesRequest = Some ''1'' \<and> episode_of seriesRequest = Some ''2'' \<and>
   handler exampleEnv seriesRequest (fst (snd (handler exampleEnv seriesRequest [])))
     = (Json [exampleStream, exampleStream, exampleStream],
        (fst (snd (handler exampleEnv seriesRequest [])),
         [GetCachedStream (imdbId_of seriesRequest) (Some ''1'') (Some ''2'')]))"
proof -
  have run: "handler exampleEnv seriesRequest []
               = (Json [exampleStream, exampleStream, exampleStream],
                  (fst (snd (handler exampleEnv seriesRequest [])),
                   snd (snd (handler exampleEnv seriesRequest []))))"
    using example_run_response by (metis prod.collapse)
  have ne: "[exampleStream, exampleStream, exampleStream] \<noteq> []" by simp
  from repeated_request_from_cache [OF run ne example_parse(2) example_parse(3)]
       example_run_response example_parse(2) example_parse(3)
  show ?thesis by (intro conjI)
qed

text \<open>
  C2, as the claim states it, fails: an answer without streams is not written to the
  cache, so the second call of the request below looks the catalog up again.
\<close>

theorem empty_answer_not_cached:
  "handler envNoCatalog seriesRequest []
     = (Json [], ([], [GetCachedStream ''tt1'' (Some ''1'') (Some ''2''), GetTmdbData ''tt1''])) \<and>
   handler envNoCatalog seriesRequest (fst (snd (handler envNoCatalog seriesRequest [])))
     = (Json [], ([], [GetCachedStream ''tt1'' (Some ''1'') (Some ''2''), GetTmdbData ''tt1'']))"
proof -
  have "handler envNoCatalog seriesRequest []
     = (Json [], ([], [GetCachedStream ''tt1'' (Some ''1'') (Some ''2''), GetTmdbData ''tt1'']))"
    by (simp add: route_defs example_defs envNoCatalog_def)
  then show ?thesis by simp
qed



section \<open>Truncation and the early returns\<close>

text \<open>
  C7, as the code has it. When the number of files to show is not negative, the list
  that enters hash resolution is the first \<open>2 * FILES_TO_SHOW\<close> candidates, so it has at
  most that many; and in every run of the handler the hash lookups made are those of
  the candidates without a hash among the first \<open>2 * FILES_TO_SHOW\<close> of the combined
  list, in their order, and no others. A run that ends before hash resolution makes
  none; a run that reaches it (a miss in the cache, a catalog entry, results, and the
  combined list) makes exactly those.
\<close>

theorem truncation_before_hash_lookups:
  assumes cfg: "getConfig E req = Inr config"
      and run: "handler E req tbl = (resp, (tbl', calls))"
      and nonneg: "0 \<le> FILES_TO_SHOW config"
  shows "int (length (limitedTorrents config candidates)) \<le> 2 * FILES_TO_SHOW config \<and>
         limitedTorrents config candidates = take (nat (2 * FILES_TO_SHOW config)) candidates \<and>
         (filter hashLookup calls = [] \<or>
          (\<exists>tmdbData torrents.
             getTmdbData E [GetCachedStream (imdbId_of req) (season_of req) (episode_of req)]
               (imdbId_of req) config = Some tmdbData \<and>
             allTorrents (params_type req) (season_of req) (episode_of req)
               (searchResults E config tmdbData (imdbId_of req) (season_of req) (episode_of req)
                  [GetCachedStream (imdbId_of req) (season_of req) (episode_of req)])
               = Inr torrents \<and>
             filter hashLookup calls
               = hashLookups (take (nat (2 * FILES_TO_SHOW config)) torrents))) \<and>
         (getCachedStream (sqlite_error E []) tbl (imdbId_of req) (season_of req)
            (episode_of req) = Inr None \<and>
          getTmdbData E [GetCachedStream (imdbId_of req) (season_of req) (episode_of req)]
            (imdbId_of req) config = Some found \<and>
          \<not> noResults (searchResults E config found (imdbId_of req) (season_of req)
                (episode_of req)
                [GetCachedStream (imdbId_of req) (season_of req) (episode_of req)]) \<and>
          allTorrents (params_type req) (season_of req) (episode_of req)
            (searchResults E config found (imdbId_of req) (season_of req) (episode_of req)
               [GetCachedStream (imdbId_of req) (season_of req) (episode_of req)])
            = Inr combined \<longrightarrow>
          filter hashLookup calls
            = hashLookups (take (nat (2 * FILES_TO_SHOW config)) combined))"
proof (intro conjI impI)
  show "limitedTorrents config candidates = take (nat (2 * FILES_TO_SHOW config)) candidates"
    by (rule limitedTorrents_nonneg [OF nonneg])
  then show "int (length (limitedTorrents config candidates)) \<le> 2 * FILES_TO_SHOW config"
    using nonneg by simp
next
  from hash_lookups_of_run [OF cfg run]
  show "filter hashLookup calls = [] \<or>
          (\<exists>tmdbData torrents.
             getTmdbData E [GetCachedStream (imdbId_of req) (season_of req) (episode_of req)]
               (imdbId_of req) config = Some tmdbData \<and>
             allTorrents (params_type req) (season_of req) (episode_of req)
               (searchResults E config tmdbData (imdbId_of req) (season_of req) (episode_of req)
                  [GetCachedStream (imdbId_of req) (season_of req) (episode_of req)])
               = Inr torrents \<and>
             filter hashLookup calls
               = hashLookups (take (nat (2 * FILES_TO_SHOW config)) torrents))"
    by (simp add: limitedTorrents_nonneg [OF nonneg])
next
  assume "getCachedStream (sqlite_error E []) tbl (imdbId_of req) (season_of req)
            (episode_of req) = Inr None \<and>
          getTmdbData E [GetCachedStream (imdbId_of req) (season_of req) (episode_of req)]
            (imdbId_of req) config = Some found \<and>
          \<not> noResults (searchResults E config found (imdbId_of req) (season_of req)
                (episode_of req)
                [GetCachedStream (imdbId_of req) (season_of req) (episode_of req)]) \<and>
          allTorrents (params_type req) (season_of req) (episode_of req)
            (searchResults E config found (imdbId_of req) (season_of req) (episode_of req)
               [GetCachedStream (imdbId_of req) (season_of req) (episode_of req)])
            = Inr combined"
  then have "filter hashLookup calls = hashLookups (limitedTorrents config combined)"
    using hash_lookups_when_reached [OF cfg run] by blast
  then show "filter hashLookup calls
            = hashLookups (take (nat (2 * FILES_TO_SHOW config)) combined)"
    by (simp add: limitedTorrents_nonneg [OF nonneg])
qed


lemma truncate_reach:
  "getConfig envTruncate seriesRequest = Inr oneFileConfig"
  "getCachedStream (sqlite_error envTruncate []) [] (imdbId_of seriesRequest)
     (season_of seriesRequest) (episode_of seriesRequest) = Inr None"
  "getTmdbData envTruncate
     [GetCachedStream (imdbId_of seriesRequest) (season_of seriesRequest)
        (episode_of seriesRequest)]
     (imdbId_of seriesRequest) oneFileConfig = Some exampleTmdb"
  "\<not> noResults (searchResults envTruncate oneFileConfig exampleTmdb (imdbId_of seriesRequest)
        (season_of seriesRequest) (episode_of seriesRequest)
        [GetCachedStream (imdbId_of seriesRequest) (season_of seriesRequest)
           (episode_of seriesRequest)])"
  "allTorrents (params_type seriesRequest) (season_of seriesRequest) (episode_of seriesRequest)
     (searchResults envTruncate oneFileConfig exampleTmdb (imdbId_of seriesRequest)
        (season_of seriesRequest) (episode_of seriesRequest)
        [GetCachedStream (imdbId_of seriesRequest) (season_of seriesRequest)
           (episode_of seriesRequest)])
     = Inr [yggSeries, packA, yggEpisode]"
  by (simp_all add: example_parse example_type envTruncate_def exampleEnv_def
      getCachedStream_def db_get_def searchResults_def combinedResults_def noResults_def
      noTorrents_def truncSearch_def allTorrents_def episodeFilter_examples)

theorem truncation_before_hash_lookups_witness:
  "getConfig envTruncate seriesRequest = Inr oneFileConfig \<and>
   0 \<le> FILES_TO_SHOW oneFileConfig \<and>
   allTorrents (params_type seriesRequest) (season_of seriesRequest) (episode_of seriesRequest)
     (searchResults envTruncate oneFileConfig exampleTmdb (imdbId_of seriesRequest)
        (season_of seriesRequest) (episode_of seriesRequest)
        [GetCachedStream (imdbId_of seriesRequest) (season_of seriesRequest)
           (episode_of seriesRequest)])
     = Inr [yggSeries, packA, yggEpisode] \<and>
   limitedTorrents oneFileConfig [yggSeries, packA, yggEpisode] = [yggSeries, packA] \<and>
   filter hashLookup (snd (snd (handler envTruncate seriesRequest [])))
     = [GetTorrentHashFromYgg (Some ''100'')]"
proof -
  have nonneg: "0 \<le> FILES_TO_SHOW oneFileConfig"
    by (simp add: oneFileConfig_def)
  have run: "handler envTruncate seriesRequest []
               = (fst (handler envTruncate seriesRequest []),
                  (fst (snd (handler envTruncate seriesRequest [])),
                   snd (snd (handler envTruncate seriesRequest []))))"
    by simp
  note main = truncation_before_hash_lookups
                [OF truncate_reach(1) run nonneg,
                 of "[yggSeries, packA, yggEpisode]" exampleTmdb "[yggSeries, packA, yggEpisode]"]
  from main have "limitedTorrents oneFileConfig [yggSeries, packA, yggEpisode]
                    = take (nat (2 * FILES_TO_SHOW oneFileConfig)) [yggSeries, packA, yggEpisode]"
    by blast
  then have cut: "limitedTorrents oneFileConfig [yggSeries, packA, yggEpisode]
                    = [yggSeries, packA]"
    by (simp add: oneFileConfig_def)
  from main truncate_reach
  have "filter hashLookup (snd (snd (handler envTruncate seriesRequest [])))
          = hashLookups (take (nat (2 * FILES_TO_SHOW oneFileConfig))
                           [yggSeries, packA, yggEpisode])"
    by blast
  then have looked: "filter hashLookup (snd (snd (handler envTruncate seriesRequest [])))
                       = [GetTorrentHashFromYgg (Some ''100'')]"
    by (simp add: oneFileConfig_def hashLookups_def yggSeries_def packA_def)
  from truncate_reach(1) nonneg truncate_reach(5) cut looked show ?thesis
    by (intro conjI)
qed

text \<open>
  C7, as the claim states it, fails for a negative number of files to show: with
  \<open>FILES_TO_SHOW = - 1\<close> the \<^verbatim>\<open>slice(0, -2)\<close> of three candidates keeps the first one,
  which is more than \<open>2 * FILES_TO_SHOW\<close>, and the handler looks its hash up.
\<close>

theorem negative_files_to_show:
  "getConfig envNegative seriesRequest = Inr negativeConfig \<and>
   FILES_TO_SHOW negativeConfig = - 1 \<and>
   limitedTorrents negativeConfig [yggSeries, packA, yggEpisode] = [yggSeries] \<and>
   \<not> int (length (limitedTorrents negativeConfig [yggSeries, packA, yggEpisode]))
       \<le> 2 * FILES_TO_SHOW negativeConfig \<and>
   handler envNegative seriesRequest []
     = (Json [], ([], GetCachedStream ''tt1'' (Some ''1'') (Some ''2'')
                       # searchCalls exampleTmdb ''tt1'' (Some ''1'') (Some ''2'')
                       @ [GetTorrentHashFromYgg (Some ''100'')]))"
proof -
  have cut: "limitedTorrents negativeConfig [yggSeries, packA, yggEpisode] = [yggSeries]"
    by (simp add: limitedTorrents_def slice0_def negativeConfig_def)
  have run: "handler envNegative seriesRequest []
     = (Json [], ([], GetCachedStream ''tt1'' (Some ''1'') (Some ''2'')
                       # searchCalls exampleTmdb ''tt1'' (Some ''1'') (Some ''2'')
                       @ [GetTorrentHashFromYgg (Some ''100'')]))"
    by (simp add: route_defs example_defs envNegative_def envTruncate_def negativeConfig_def
        truncSearch_def yggSeries_def searchCalls_def)
  show ?thesis
    using cut run by (simp add: envNegative_def negativeConfig_def)
qed


lemmas scenario_defs = envNoCatalog_def envNoResults_def envNoHashes_def envNotReady_def

lemma Ready_not_Processing: "''Processing'' \<noteq> Ready"
  by (simp add: Ready_def)


text \<open>
  C8. After a miss in the cache, each of the four conditions ends the request with
  \<^verbatim>\<open>{ streams: [] }\<close>, the table unchanged, and the calls made are the ones listed: no
  search after an absent catalog entry; nothing after the searches when all buckets are
  empty; only the hash lookups when no magnet results; only the upload after them when no
  uploaded torrent is ready.
\<close>

theorem short_circuits:
  assumes cfg: "getConfig E req = Inr config"
      and miss: "getCachedStream (sqlite_error E []) tbl (imdbId_of req) (season_of req)
                   (episode_of req) = Inr None"
  defines "i \<equiv> imdbId_of req" and "s \<equiv> season_of req" and "e \<equiv> episode_of req"
  defines "c0 \<equiv> GetCachedStream i s e"
  shows
    "(getTmdbData E [c0] i config = None \<longrightarrow>
        handler E req tbl = (Json [], (tbl, [c0, GetTmdbData i]))) \<and>
     (getTmdbData E [c0] i config = Some tmdbData \<and>
      noResults (searchResults E config tmdbData i s e [c0]) \<longrightarrow>
        handler E req tbl = (Json [], (tbl, c0 # searchCalls tmdbData i s e))) \<and>
     (getTmdbData E [c0] i config = Some tmdbData \<and>
      \<not> noResults (searchResults E config tmdbData i s e [c0]) \<and>
      allTorrents (params_type req) s e (searchResults E config tmdbData i s e [c0])
        = Inr torrents \<and>
      fst (resolveHashes E (limitedTorrents config torrents) []
             (tbl, c0 # searchCalls tmdbData i s e)) = [] \<longrightarrow>
        handler E req tbl
          = (Json [], (tbl, c0 # searchCalls tmdbData i s e
                              @ hashLookups (limitedTorrents config torrents)))) \<and>
     (getTmdbData E [c0] i config = Some tmdbData \<and>
      \<not> noResults (searchResults E config tmdbData i s e [c0]) \<and>
      allTorrents (params_type req) s e (searchResults E config tmdbData i s e [c0])
        = Inr torrents \<and>
      fst (resolveHashes E (limitedTorrents config torrents) []
             (tbl, c0 # searchCalls tmdbData i s e)) = magnets \<and>
      magnets \<noteq> [] \<and>
      readyTorrents_of
        (uploadMagnets E (c0 # searchCalls tmdbData i s e
                            @ hashLookups (limitedTorrents config torrents)) magnets config)
        = [] \<longrightarrow>
        handler E req tbl
          = (Json [], (tbl, c0 # searchCalls tmdbData i s e
                              @ hashLookups (limitedTorrents config torrents)
                              @ [UploadMagnets magnets])))"
proof -
  have start: "handler E req tbl = fetchAndSearch E config (params_type req) i s e (tbl, [c0])"
    using cfg miss unfolding i_def s_def e_def c0_def
    by (simp add: handler_def getCachedStream_call_def Let_def)
  have found: "fetchAndSearch E config (params_type req) i s e (tbl, [c0])
                 = processResults E config (params_type req) i s e tmdbData
                     (searchResults E config tmdbData i s e [c0])
                     (tbl, c0 # searchCalls tmdbData i s e)"
    if "getTmdbData E [c0] i config = Some tmdbData"
    using that by (simp add: fetchAndSearch_def searchResults_def searchCalls_def Let_def)
  have hashes: "processResults E config (params_type req) i s e tmdbData
                     (searchResults E config tmdbData i s e [c0])
                     (tbl, c0 # searchCalls tmdbData i s e)
                 = uploadAndResolve E config (params_type req) i s e tmdbData
                     (fst (resolveHashes E (limitedTorrents config torrents) []
                             (tbl, c0 # searchCalls tmdbData i s e)))
                     (tbl, (c0 # searchCalls tmdbData i s e)
                             @ hashLookups (limitedTorrents config torrents))"
    if "\<not> noResults (searchResults E config tmdbData i s e [c0])"
       "allTorrents (params_type req) s e (searchResults E config tmdbData i s e [c0])
          = Inr torrents"
    using that
      resolveHashes_state [of E "limitedTorrents config torrents" "[]" tbl
                              "c0 # searchCalls tmdbData i s e"]
    by (simp add: processResults_def case_prod_beta)
  show ?thesis
  proof (intro conjI impI)
    assume "getTmdbData E [c0] i config = None"
    then show "handler E req tbl = (Json [], (tbl, [c0, GetTmdbData i]))"
      by (simp add: start fetchAndSearch_def)
  next
    assume "getTmdbData E [c0] i config = Some tmdbData \<and>
            noResults (searchResults E config tmdbData i s e [c0])"
    then show "handler E req tbl = (Json [], (tbl, c0 # searchCalls tmdbData i s e))"
      by (simp add: start found processResults_def)
  next
    assume a: "getTmdbData E [c0] i config = Some tmdbData \<and>
      \<not> noResults (searchResults E config tmdbData i s e [c0]) \<and>
      allTorrents (params_type req) s e (searchResults E config tmdbData i s e [c0])
        = Inr torrents \<and>
      fst (resolveHashes E (limitedTorrents config torrents) []
             (tbl, c0 # searchCalls tmdbData i s e)) = []"
    then show "handler E req tbl
          = (Json [], (tbl, c0 # searchCalls tmdbData i s e
                              @ hashLookups (limitedTorrents config torrents)))"
      by (simp add: start found hashes uploadAndResolve_def)
  next
    assume a: "getTmdbData E [c0] i config = Some tmdbData \<and>
      \<not> noResults (searchResults E config tmdbData i s e [c0]) \<and>
      allTorrents (params_type req) s e (searchResults E config tmdbData i s e [c0])
        = Inr torrents \<and>
      fst (resolveHashes E (limitedTorrents config torrents) []
             (tbl, c0 # searchCalls tmdbData i s e)) = magnets \<and>
      magnets \<noteq> [] \<and>
      readyTorrents_of
        (uploadMagnets E (c0 # searchCalls tmdbData i s e
                            @ hashLookups (limitedTorrents config torrents)) magnets config)
        = []"
    then show "handler E req tbl
          = (Json [], (tbl, c0 # searchCalls tmdbData i s e
                              @ hashLookups (limitedTorrents config torrents)
                              @ [UploadMagnets magnets]))"
      by (simp add: start found hashes uploadAndResolve_def resolveLinks_def Let_def)
  qed
qed


theorem short_circuits_witness:
  "handler envNoCatalog seriesRequest []
     = (Json [], ([], [GetCachedStream ''tt1'' (Some ''1'') (Some ''2''), GetTmdbData ''tt1''])) \<and>
   handler envNoResults seriesRequest []
     = (Json [], ([], GetCachedStream ''tt1'' (Some ''1'') (Some ''2'')
                       # searchCalls exampleTmdb ''tt1'' (Some ''1'') (Some ''2''))) \<and>
   handler envNoHashes seriesRequest []
     = (Json [], ([], GetCachedStream ''tt1'' (Some ''1'') (Some ''2'')
                       # searchCalls exampleTmdb ''tt1'' (Some ''1'') (Some ''2'')
                       @ [GetTorrentHashFromYgg (Some ''101'')])) \<and>
   handler envNotReady seriesRequest []
     = (Json [], ([], GetCachedStream ''tt1'' (Some ''1'') (Some ''2'')
                       # searchCalls exampleTmdb ''tt1'' (Some ''1'') (Some ''2'')
                       @ [GetTorrentHashFromYgg (Some ''101''),
                          UploadMagnets [magnet_of ''aaaa'' packA, magnet_of ''bbbb'' packB]]))"
proof (intro conjI)
  have cfg: "getConfig envNoCatalog seriesRequest = Inr exampleConfig"
    by (simp add: scenario_defs exampleEnv_def)
  have miss: "getCachedStream (sqlite_error envNoCatalog []) [] (imdbId_of seriesRequest)
                (season_of seriesRequest) (episode_of seriesRequest) = Inr None"
    by (simp add: scenario_defs exampleEnv_def getCachedStream_def db_get_def)
  have h: "getTmdbData envNoCatalog
             [GetCachedStream (imdbId_of seriesRequest) (season_of seriesRequest)
                (episode_of seriesRequest)]
             (imdbId_of seriesRequest) exampleConfig = None"
    by (simp add: scenario_defs exampleEnv_def)
  from short_circuits [OF cfg miss, THEN conjunct1, rule_format, OF h]
  show "handler envNoCatalog seriesRequest []
     = (Json [], ([], [GetCachedStream ''tt1'' (Some ''1'') (Some ''2''), GetTmdbData ''tt1'']))"
    by (simp add: example_parse)
next
  have cfg: "getConfig envNoResults seriesRequest = Inr exampleConfig"
    by (simp add: scenario_defs exampleEnv_def)
  have miss: "getCachedStream (sqlite_error envNoResults []) [] (imdbId_of seriesRequest)
                (season_of seriesRequest) (episode_of seriesRequest) = Inr None"
    by (simp add: scenario_defs exampleEnv_def getCachedStream_def db_get_def)
  have h: "getTmdbData envNoResults
             [GetCachedStream (imdbId_of seriesRequest) (season_of seriesRequest)
                (episode_of seriesRequest)]
             (imdbId_of seriesRequest) exampleConfig = Some exampleTmdb \<and>
           noResults (searchResults envNoResults exampleConfig exampleTmdb
             (imdbId_of seriesRequest) (season_of seriesRequest) (episode_of seriesRequest)
             [GetCachedStream (imdbId_of seriesRequest) (season_of seriesRequest)
                (episode_of seriesRequest)])"
    by (simp add: scenario_defs exampleEnv_def searchResults_def combinedResults_def
        noResults_def noTorrents_def)
  from short_circuits [OF cfg miss, THEN conjunct2, THEN conjunct1, rule_format, OF h]
  show "handler envNoResults seriesRequest []
     = (Json [], ([], GetCachedStream ''tt1'' (Some ''1'') (Some ''2'')
                       # searchCalls exampleTmdb ''tt1'' (Some ''1'') (Some ''2'')))"
    by (simp add: example_parse)
next
  have cfg: "getConfig envNoHashes seriesRequest = Inr exampleConfig"
    by (simp add: scenario_defs exampleEnv_def)
  have miss: "getCachedStream (sqlite_error envNoHashes []) [] (imdbId_of seriesRequest)
                (season_of seriesRequest) (episode_of seriesRequest) = Inr None"
    by (simp add: scenario_defs exampleEnv_def getCachedStream_def db_get_def)
  have h: "getTmdbData envNoHashes
             [GetCachedStream (imdbId_of seriesRequest) (season_of seriesRequest)
                (episode_of seriesRequest)]
             (imdbId_of seriesRequest) exampleConfig = Some exampleTmdb \<and>
           \<not> noResults (searchResults envNoHashes exampleConfig exampleTmdb
             (imdbId_of seriesRequest) (season_of seriesRequest) (episode_of seriesRequest)
             [GetCachedStream (imdbId_of seriesRequest) (season_of seriesRequest)
                (episode_of seriesRequest)]) \<and>
           allTorrents (params_type seriesRequest) (season_of seriesRequest)
             (episode_of seriesRequest)
             (searchResults envNoHashes exampleConfig exampleTmdb
               (imdbId_of seriesRequest) (season_of seriesRequest) (episode_of seriesRequest)
               [GetCachedStream (imdbId_of seriesRequest) (season_of seriesRequest)
                  (episode_of seriesRequest)]) = Inr [yggEpisode] \<and>
           fst (resolveHashes envNoHashes (limitedTorrents exampleConfig [yggEpisode]) []
                  ([], GetCachedStream (imdbId_of seriesRequest) (season_of seriesRequest)
                         (episode_of seriesRequest)
                       # searchCalls exampleTmdb (imdbId_of seriesRequest)
                           (season_of seriesRequest) (episode_of seriesRequest))) = []"
    by (simp add: example_parse scenario_defs exampleEnv_def searchResults_def
        combinedResults_def noResults_def noTorrents_def allTorrents_def example_type
        episodeFilter_examples limitedTorrents_def slice0_def exampleConfig_def)
       (simp add: yggEpisode_def)
  from short_circuits [OF cfg miss, THEN conjunct2, THEN conjunct2, THEN conjunct1,
                       rule_format, OF h]
  show "handler envNoHashes seriesRequest []
     = (Json [], ([], GetCachedStream ''tt1'' (Some ''1'') (Some ''2'')
                       # searchCalls exampleTmdb ''tt1'' (Some ''1'') (Some ''2'')
                       @ [GetTorrentHashFromYgg (Some ''101'')]))"
    by (simp add: example_parse hashLookups_def limitedTorrents_def slice0_def exampleConfig_def
        yggEpisode_def)
next
  have cfg: "getConfig envNotReady seriesRequest = Inr exampleConfig"
    by (simp add: scenario_defs exampleEnv_def)
  have miss: "getCachedStream (sqlite_error envNotReady []) [] (imdbId_of seriesRequest)
                (season_of seriesRequest) (episode_of seriesRequest) = Inr None"
    by (simp add: scenario_defs exampleEnv_def getCachedStream_def db_get_def)
  have h: "getTmdbData envNotReady
             [GetCachedStream (imdbId_of seriesRequest) (season_of seriesRequest)
                (episode_of seriesRequest)]
             (imdbId_of seriesRequest) exampleConfig = Some exampleTmdb \<and>
           \<not> noResults (searchResults envNotReady exampleConfig exampleTmdb
             (imdbId_of seriesRequest) (season_of seriesRequest) (episode_of seriesRequest)
             [GetCachedStream (imdbId_of seriesRequest) (season_of seriesRequest)
                (episode_of seriesRequest)]) \<and>
           allTorrents (params_type seriesRequest) (season_of seriesRequest)
             (episode_of seriesRequest)
             (searchResults envNotReady exampleConfig exampleTmdb
               (imdbId_of seriesRequest) (season_of seriesRequest) (episode_of seriesRequest)
               [GetCachedStream (imdbId_of seriesRequest) (season_of seriesRequest)
                  (episode_of seriesRequest)]) = Inr [packA, packB, yggEpisode] \<and>
           fst (resolveHashes envNotReady (limitedTorrents exampleConfig [packA, packB, yggEpisode]) []
                  ([], GetCachedStream (imdbId_of seriesRequest) (season_of seriesRequest)
                         (episode_of seriesRequest)
                       # searchCalls exampleTmdb (imdbId_of seriesRequest)
                           (season_of seriesRequest) (episode_of seriesRequest)))
             = [magnet_of ''aaaa'' packA, magnet_of ''bbbb'' packB] \<and>
           [magnet_of ''aaaa'' packA, magnet_of ''bbbb'' packB] \<noteq> [] \<and>
           readyTorrents_of
             (uploadMagnets envNotReady
                (GetCachedStream (imdbId_of seriesRequest) (season_of seriesRequest)
                         (episode_of seriesRequest)
                   # searchCalls exampleTmdb (imdbId_of seriesRequest)
                           (season_of seriesRequest) (episode_of seriesRequest)
                   @ hashLookups (limitedTorrents exampleConfig [packA, packB, yggEpisode]))
                [magnet_of ''aaaa'' packA, magnet_of ''bbbb'' packB] exampleConfig) = []"
    by (simp add: example_parse scenario_defs exampleEnv_def searchResults_def
        combinedResults_def noResults_def noTorrents_def allTorrents_def example_type
        episodeFilter_examples limitedTorrents_def slice0_def exampleConfig_def exampleSearch_def
        readyTorrents_of_def status_of_def Ready_not_Processing)
       (simp add: yggEpisode_def packA_def packB_def)
  from short_circuits [OF cfg miss, THEN conjunct2, THEN conjunct2, THEN conjunct2,
                       rule_format, OF h]
  show "handler envNotReady seriesRequest []
     = (Json [], ([], GetCachedStream ''tt1'' (Some ''1'') (Some ''2'')
                       # searchCalls exampleTmdb ''tt1'' (Some ''1'') (Some ''2'')
                       @ [GetTorrentHashFromYgg (Some ''101''),
                          UploadMagnets [magnet_of ''aaaa'' packA, magnet_of ''bbbb'' packB]]))"
    by (simp add: example_parse hashLookups_def limitedTorrents_def slice0_def exampleConfig_def
        yggEpisode_def packA_def packB_def)
qed




section \<open>The slots of the cache in series mode\<close>

lemma twoDigits_pair: "twoDigits ds \<longleftrightarrow> (\<exists>d1 d2. ds = [d1, d2] \<and> isDigit d1 \<and> isDigit d2)"
  by (auto simp: twoDigits_def length_Suc_conv numeral_2_eq_2)

lemma episodeRegex_here_pattern:
  "episodeRegex_here xs = Some (ds, de) \<longleftrightarrow> patternHere xs ds de"
proof
  assume "episodeRegex_here xs = Some (ds, de)"
  then show "patternHere xs ds de"
    by (induction xs rule: episodeRegex_here.induct)
       (auto simp: patternHere_def twoDigits_def split: if_splits)
next
  assume "patternHere xs ds de"
  then obtain a b post d1 d2 d3 d4 where
    "xs = a # [d1, d2] @ b # [d3, d4] @ post" "ds = [d1, d2]" "de = [d3, d4]"
    "a = CHR ''s'' \<or> a = CHR ''S''" "b = CHR ''e'' \<or> b = CHR ''E''"
    "isDigit d1" "isDigit d2" "isDigit d3" "isDigit d4"
    unfolding patternHere_def twoDigits_pair by blast
  then show "episodeRegex_here xs = Some (ds, de)" by auto
qed

lemma patternHere_Nil: "\<not> patternHere [] ds de"
  by (simp add: patternHere_def)

lemma episodeRegex_None_iff: "episodeRegex n = None \<longleftrightarrow> noMatch n"
proof (induction n)
  case Nil
  then show ?case by (simp add: noMatch_def patternHere_Nil)
next
  case (Cons c cs)
  have split: "noMatch (c # cs) \<longleftrightarrow> (\<forall>ds de. \<not> patternHere (c # cs) ds de) \<and> noMatch cs"
  proof
    assume n: "noMatch (c # cs)"
    have "\<not> patternHere (c # cs) ds de" for ds de
      using n [unfolded noMatch_def, rule_format, of 0 ds de] by simp
    moreover have "\<not> patternHere (drop k cs) ds de" for k ds de
      using n [unfolded noMatch_def, rule_format, of "Suc k" ds de] by simp
    ultimately show "(\<forall>ds de. \<not> patternHere (c # cs) ds de) \<and> noMatch cs"
      by (simp add: noMatch_def)
  next
    assume a: "(\<forall>ds de. \<not> patternHere (c # cs) ds de) \<and> noMatch cs"
    show "noMatch (c # cs)"
      unfolding noMatch_def
    proof (intro allI)
      fix k ds de
      show "\<not> patternHere (drop k (c # cs)) ds de"
        using a by (cases k) (simp_all add: noMatch_def)
    qed
  qed
  show ?case
  proof (cases "episodeRegex_here (c # cs)")
    case None
    then have "\<not> patternHere (c # cs) ds de" for ds de
      using episodeRegex_here_pattern [of "c # cs" ds de] by simp
    with None Cons.IH split show ?thesis by simp
  next
    case (Some m)
    obtain a b where "m = (a, b)" by (cases m)
    with Some have "patternHere (c # cs) a b"
      using episodeRegex_here_pattern [of "c # cs" a b] by simp
    with Some split show ?thesis by auto
  qed
qed

lemma episodeRegex_Some_iff: "episodeRegex n = Some (ds, de) \<longleftrightarrow> leftmostMatch n ds de"
proof (induction n)
  case Nil
  then show ?case by (simp add: leftmostMatch_def patternHere_Nil)
next
  case (Cons c cs)
  show ?case
  proof (cases "episodeRegex_here (c # cs)")
    case (Some m)
    obtain a b where m: "m = (a, b)" by (cases m)
    with Some have here: "patternHere (c # cs) a b"
      using episodeRegex_here_pattern [of "c # cs" a b] by simp
    have "leftmostMatch (c # cs) ds de \<longleftrightarrow> (ds, de) = (a, b)"
    proof
      assume "leftmostMatch (c # cs) ds de"
      then obtain pre rest where n: "c # cs = pre @ rest" and p: "patternHere rest ds de"
        and l: "\<forall>k<length pre. \<forall>ds' de'. \<not> patternHere (drop k (c # cs)) ds' de'"
        unfolding leftmostMatch_def by blast
      have "pre = []"
      proof (rule ccontr)
        assume "pre \<noteq> []"
        then have "0 < length pre" by simp
        with l have "\<not> patternHere (drop 0 (c # cs)) a b" by blast
        with here show False by simp
      qed
      with n p have "patternHere (c # cs) ds de" by simp
      then have "episodeRegex_here (c # cs) = Some (ds, de)"
        by (simp add: episodeRegex_here_pattern)
      with Some m show "(ds, de) = (a, b)" by simp
    next
      assume "(ds, de) = (a, b)"
      with here have "patternHere (c # cs) ds de" by simp
      then show "leftmostMatch (c # cs) ds de"
        unfolding leftmostMatch_def by (intro exI [of _ "[]"] exI [of _ "c # cs"]) simp
    qed
    with Some m show ?thesis by auto
  next
    case None
    then have nohere: "\<not> patternHere (c # cs) ds' de'" for ds' de'
      using episodeRegex_here_pattern [of "c # cs" ds' de'] by simp
    have "leftmostMatch (c # cs) ds de \<longleftrightarrow> leftmostMatch cs ds de"
    proof
      assume "leftmostMatch (c # cs) ds de"
      then obtain pre rest where n: "c # cs = pre @ rest" and p: "patternHere rest ds de"
        and l: "\<forall>k<length pre. \<forall>ds' de'. \<not> patternHere (drop k (c # cs)) ds' de'"
        unfolding leftmostMatch_def by blast
      from n p nohere have "pre \<noteq> []" by auto
      with n obtain pre' where pre: "pre = c # pre'" and cs: "cs = pre' @ rest"
        by (cases pre) auto
      have "\<forall>k<length pre'. \<forall>ds' de'. \<not> patternHere (drop k cs) ds' de'"
      proof (intro allI impI)
        fix k ds' de'
        assume "k < length pre'"
        then have "Suc k < length pre" using pre by simp
        with l have "\<not> patternHere (drop (Suc k) (c # cs)) ds' de'" by blast
        then show "\<not> patternHere (drop k cs) ds' de'" by simp
      qed
      with cs p show "leftmostMatch cs ds de"
        unfolding leftmostMatch_def by blast
    next
      assume "leftmostMatch cs ds de"
      then obtain pre rest where n: "cs = pre @ rest" and p: "patternHere rest ds de"
        and l: "\<forall>k<length pre. \<forall>ds' de'. \<not> patternHere (drop k cs) ds' de'"
        unfolding leftmostMatch_def by blast
      have "\<forall>k<length (c # pre). \<forall>ds' de'. \<not> patternHere (drop k (c # cs)) ds' de'"
      proof (intro allI impI)
        fix k ds' de'
        assume k: "k < length (c # pre)"
        show "\<not> patternHere (drop k (c # cs)) ds' de'"
        proof (cases k)
          case 0
          then show ?thesis using nohere by simp
        next
          case (Suc j)
          with k have "j < length pre" by simp
          with l Suc show ?thesis by simp
        qed
      qed
      moreover from n have "c # cs = (c # pre) @ rest" by simp
      ultimately show "leftmostMatch (c # cs) ds de"
        unfolding leftmostMatch_def using p by blast
    qed
    with None Cons.IH show ?thesis by simp
  qed
qed


lemma cachedOrUnlocked_log:
  assumes "cachedOrUnlocked E config i tmdbData torrent f s e (tbl, calls) = (r, (tbl', calls'))"
  shows "calls' = calls @ [GetCachedStream i s e] \<or>
         calls' = calls @ [GetCachedStream i s e, UnlockFileLink (file_link f)] \<or>
         (\<exists>streamObj. calls' = calls @ [GetCachedStream i s e, UnlockFileLink (file_link f),
                                         StoreStream i s e [streamObj]])"
  using assms
  by (auto simp: cachedOrUnlocked_def getCachedStream_call_def storeStream_call_def Let_def
      split: sum.splits option.splits list.splits if_splits)

lemma processFile_log:
  assumes "processFile E config ''series'' i season episode tmdbData torrent f filteredFiles
             (tbl, calls) = (r, (tbl', calls'))"
  shows "\<exists>seg. calls' = calls @ seg \<and> fileLog i f seg"
proof (cases "episodeRegex (toLowerCase (file_name f))")
  case None
  with assms have "calls' = calls @ []" by (simp add: processFile_def)
  moreover from None have "noMatch (toLowerCase (file_name f))"
    by (simp add: episodeRegex_None_iff)
  ultimately show ?thesis unfolding fileLog_def by blast
next
  case (Some m)
  obtain ds de where m: "m = (ds, de)" by (cases m)
  with Some have match: "leftmostMatch (toLowerCase (file_name f)) ds de"
    by (simp add: episodeRegex_Some_iff)
  obtain c tbl1 calls1 where c: "cachedOrUnlocked E config i tmdbData torrent f
                             (Some ds) (Some de) (tbl, calls) = (c, (tbl1, calls1))"
    by (cases "cachedOrUnlocked E config i tmdbData torrent f (Some ds) (Some de) (tbl, calls)")
       auto
  from assms Some m c have "calls' = calls1"
    by (auto simp: processFile_def split: sum.splits option.splits if_splits)
  with cachedOrUnlocked_log [OF c] match show ?thesis
    unfolding fileLog_def by blast
qed

lemma processFiles_log:
  "processFiles E config ''series'' i season episode tmdbData torrent files filteredFiles
     (tbl, calls) = (r, (tbl', calls'))
   \<Longrightarrow> \<exists>segs. calls' = calls @ segs \<and> filesLog i files segs"
proof (induction files arbitrary: filteredFiles tbl calls)
  case Nil
  then have "calls' = calls @ []" by simp
  then show ?case using filesLog.stop by blast
next
  case (Cons vf rest)
  obtain r1 tbl1 calls1 where f: "processFile E config ''series'' i season episode tmdbData
                            torrent vf filteredFiles (tbl, calls) = (r1, (tbl1, calls1))"
    by (cases "processFile E config ''series'' i season episode tmdbData torrent vf
                 filteredFiles (tbl, calls)") auto
  from processFile_log [OF f] obtain seg where seg: "calls1 = calls @ seg" "fileLog i vf seg"
    by blast
  show ?case
  proof (cases r1)
    case (Inl err)
    with Cons.prems f have "calls' = calls1" by simp
    with seg have "calls' = calls @ seg @ []" by simp
    moreover have "filesLog i (vf # rest) (seg @ [])"
      using seg(2) filesLog.stop by (rule filesLog.next_file)
    ultimately show ?thesis by blast
  next
    case (Inr ff)
    with Cons.prems f
    have "processFiles E config ''series'' i season episode tmdbData torrent rest ff
            (tbl1, calls1) = (r, (tbl', calls'))"
      by simp
    from Cons.IH [OF this] obtain segs where segs: "calls' = calls1 @ segs" "filesLog i rest segs"
      by blast
    from seg(1) segs(1) have "calls' = calls @ seg @ segs" by simp
    moreover have "filesLog i (vf # rest) (seg @ segs)"
      using seg(2) segs(2) by (rule filesLog.next_file)
    ultimately show ?thesis by blast
  qed
qed

lemma unlockAndAddStreams_log:
  "unlockAndAddStreams E config ''series'' i season episode tmdbData readyTorrents streams
     (tbl, calls) = (r, (tbl', calls'))
   \<Longrightarrow> \<exists>extra. calls' = calls @ extra \<and> loopLog E config i calls readyTorrents extra"
proof (induction readyTorrents arbitrary: streams tbl calls)
  case Nil
  then have "calls' = calls @ []" by simp
  then show ?case using loopLog.stop by blast
next
  case (Cons torrent rest)
  show ?case
  proof (cases "int (length streams) \<ge> FILES_TO_SHOW config")
    case True
    with Cons.prems have "calls' = calls @ []" by simp
    then show ?thesis using loopLog.stop by blast
  next
    case False
    let ?g = "GetFilesFromMagnetId (status_id torrent) (status_source torrent)"
    let ?files = "getFilesFromMagnetId E calls (status_id torrent) (status_source torrent) config"
    obtain r2 tbl2 calls2 where f: "processFiles E config ''series'' i season episode tmdbData
                              torrent ?files [] (tbl, calls @ [?g]) = (r2, (tbl2, calls2))"
      by (cases "processFiles E config ''series'' i season episode tmdbData torrent ?files []
                   (tbl, calls @ [?g])") auto
    from processFiles_log [OF f] obtain segs where
      segs: "calls2 = (calls @ [?g]) @ segs" "filesLog i ?files segs"
      by blast
    show ?thesis
    proof (cases r2)
      case (Inl err)
      with Cons.prems False f have "calls' = calls2" by (simp add: Let_def)
      with segs(1) have "calls' = calls @ ?g # segs @ []" by simp
      moreover have "loopLog E config i calls (torrent # rest) (?g # segs @ [])"
        using segs(2) loopLog.stop by (rule loopLog.next_torrent)
      ultimately show ?thesis by blast
    next
      case (Inr ff)
      with Cons.prems False f
      have "unlockAndAddStreams E config ''series'' i season episode tmdbData rest
              (streams @ ff) (tbl2, calls2) = (r, (tbl', calls'))"
        by (simp add: Let_def)
      from Cons.IH [OF this] obtain extra where
        extra: "calls' = calls2 @ extra" "loopLog E config i calls2 rest extra"
        by blast
      from segs(1) extra(1) have "calls' = calls @ ?g # segs @ extra" by simp
      moreover have "loopLog E config i calls (torrent # rest) (?g # segs @ extra)"
        using segs(2) extra(2) [unfolded segs(1)] by (intro loopLog.next_torrent) simp_all
      ultimately show ?thesis by blast
    qed
  qed
qed


lemma slot_series: "slot_of_type ''series'' s e = twoDigitKey s e"
  by (cases s; cases e) simp_all

lemma perFileCall_not_request:
  "\<not> twoDigitKey s e \<Longrightarrow> perFileCall ''series'' i c \<Longrightarrow> \<not> requestSlotCall i s e c"
  by (cases c) (auto simp: slot_series)

lemma getCachedStream_no_key:
  "s = None \<or> e = None \<Longrightarrow>
     getCachedStream err tbl i s e = (case err of Some m \<Rightarrow> Inl m | None \<Rightarrow> Inr None)"
proof -
  assume k: "s = None \<or> e = None"
  have "\<not> where_key i s e r" for r
    using k by (cases "row_season r"; cases "row_episode r"; cases s; cases e)
               (auto simp: where_key_def)
  then have "find (where_key i s e) tbl = None"
    by (induction tbl) auto
  then show ?thesis
    by (cases err) (simp_all add: getCachedStream_def db_get_def)
qed

lemma resolveLinks_series_log:
  assumes "resolveLinks E config ''series'' i s e tmdbData rdy (tbl, calls) = (resp, (tbl', calls'))"
  shows "\<exists>loop fin tbl1.
           calls' = calls @ loop @ fin \<and> loopLog E config i calls rdy loop \<and>
           loop_step ''series'' i (tbl, calls) (tbl1, calls @ loop) \<and>
           ((fin = [] \<and> tbl' = tbl1) \<or>
            (\<exists>out u. out \<noteq> [] \<and> fin = [StoreStream i s e out] \<and>
               storeStream_call E i s e out (tbl1, calls @ loop) = (u, (tbl', calls')) \<and>
               (case u of Inr v \<Rightarrow> resp = Json out | Inl err \<Rightarrow> resp = Rejected err)))"
proof -
  obtain r tbl1 calls1 where
    u: "unlockAndAddStreams E config ''series'' i s e tmdbData rdy [] (tbl, calls)
          = (r, (tbl1, calls1))"
    by (cases "unlockAndAddStreams E config ''series'' i s e tmdbData rdy [] (tbl, calls)") auto
  from unlockAndAddStreams_log [OF u] obtain loop where
    loop: "calls1 = calls @ loop" "loopLog E config i calls rdy loop"
    by blast
  from unlockAndAddStreams_step [OF u] loop(1)
  have step: "loop_step ''series'' i (tbl, calls) (tbl1, calls @ loop)" by simp
  have plain: ?thesis if "tbl' = tbl1" "calls' = calls1"
    using that loop step by (intro exI [of _ loop] exI [of _ "[]"] exI [of _ tbl1]) simp
  show ?thesis
  proof (cases r)
    case (Inl err)
    with assms u have "tbl' = tbl1" "calls' = calls1" by (auto simp: resolveLinks_def)
    then show ?thesis by (rule plain)
  next
    case (Inr out)
    show ?thesis
    proof (cases "out = []")
      case True
      with assms u Inr have "tbl' = tbl1" "calls' = calls1" by (auto simp: resolveLinks_def)
      then show ?thesis by (rule plain)
    next
      case False
      obtain v st2 where w: "storeStream_call E i s e out (tbl1, calls1) = (v, st2)"
        by (cases "storeStream_call E i s e out (tbl1, calls1)")
      with assms u Inr False
      have st2: "st2 = (tbl', calls')"
        and v: "case v of Inr x \<Rightarrow> resp = Json out | Inl err \<Rightarrow> resp = Rejected err"
        by (auto simp: resolveLinks_def split: sum.splits)
      from storeStream_call_calls [OF w] st2 loop(1)
      have "calls' = calls @ loop @ [StoreStream i s e out]" by simp
      with False loop step w st2 v show ?thesis
        by (intro exI [of _ loop] exI [of _ "[StoreStream i s e out]"] exI [of _ tbl1]) auto
    qed
  qed
qed

text \<open>
  C10. In a series request the calls of the handler are the read of the slot of the
  request (season and episode as the id has them), calls to the services, the calls of
  the loop, and at most one final write to the slot of the request. The calls of the
  loop are, torrent by torrent and file by file, the reads and writes at the slot whose
  season and episode are the two captures of the pattern in the name of that file: two
  digits each. When the season and the episode of the id are not both of two digits,
  none of the calls of the loop is at the slot of the request, and what a later read of
  that slot finds is what it found before the request, or the sequence this request
  answered with and wrote at the end: never an entry written for one file.
\<close>

theorem request_slot_apart_from_file_slots:
  assumes cfg: "getConfig E req = Inr config"
      and run: "handler E req tbl = (resp, (tbl', calls))"
      and series: "params_type req = ''series''"
  shows "\<exists>pre loop fin rdy.
           calls = GetCachedStream (imdbId_of req) (season_of req) (episode_of req)
                     # pre @ loop @ fin \<and>
           list_all serviceCall pre \<and>
           loopLog E config (imdbId_of req)
             (GetCachedStream (imdbId_of req) (season_of req) (episode_of req) # pre) rdy loop \<and>
           list_all (perFileCall ''series'' (imdbId_of req)) loop \<and>
           (fin = [] \<or>
            (\<exists>out. out \<noteq> [] \<and>
               fin = [StoreStream (imdbId_of req) (season_of req) (episode_of req) out])) \<and>
           (\<not> twoDigitKey (season_of req) (episode_of req) \<longrightarrow>
              list_all (\<lambda>c. \<not> requestSlotCall (imdbId_of req) (season_of req) (episode_of req) c)
                loop \<and>
              (getCachedStream err tbl' (imdbId_of req) (season_of req) (episode_of req)
                 = getCachedStream err tbl (imdbId_of req) (season_of req) (episode_of req) \<or>
               (\<exists>out. out \<noteq> [] \<and> resp = Json out \<and>
                  fin = [StoreStream (imdbId_of req) (season_of req) (episode_of req) out] \<and>
                  getCachedStream None tbl' (imdbId_of req) (season_of req) (episode_of req)
                    = Inr (Some out))))"
proof -
  let ?i = "imdbId_of req" and ?s = "season_of req" and ?e = "episode_of req"
  let ?c0 = "GetCachedStream ?i ?s ?e"
  let ?later = "\<lambda>fin. \<not> twoDigitKey ?s ?e \<longrightarrow>
       (getCachedStream err tbl' ?i ?s ?e = getCachedStream err tbl ?i ?s ?e \<or>
        (\<exists>out. out \<noteq> [] \<and> resp = Json out \<and> fin = [StoreStream ?i ?s ?e out] \<and>
           getCachedStream None tbl' ?i ?s ?e = Inr (Some out)))"
  have goal: ?thesis
    if pre: "list_all serviceCall pre"
      and c: "calls = ?c0 # pre @ loop @ fin"
      and log: "loopLog E config ?i (?c0 # pre) rdy loop"
      and per: "list_all (perFileCall ''series'' ?i) loop"
      and fin: "fin = [] \<or> (\<exists>out. out \<noteq> [] \<and> fin = [StoreStream ?i ?s ?e out])"
      and later: "?later fin"
    for pre loop fin rdy
  proof -
    have "\<not> twoDigitKey ?s ?e \<longrightarrow> list_all (\<lambda>c. \<not> requestSlotCall ?i ?s ?e c) loop"
      using per perFileCall_not_request by (auto simp: list_all_iff)
    with that show ?thesis
      by (intro exI [of _ pre] exI [of _ loop] exI [of _ fin] exI [of _ rdy]) blast
  qed
  from handler_run [OF cfg run]
  obtain pre where pre: "list_all serviceCall pre"
    and alt: "(tbl', calls) = (tbl, ?c0 # pre) \<or>
              (\<exists>tmdbData rdy. resolveLinks E config ''series'' ?i ?s ?e tmdbData rdy
                 (tbl, ?c0 # pre) = (resp, (tbl', calls)))"
    unfolding series by blast
  from alt show ?thesis
  proof
    assume "(tbl', calls) = (tbl, ?c0 # pre)"
    then have "calls = ?c0 # pre @ [] @ []" and t: "tbl' = tbl" by simp_all
    moreover have "loopLog E config ?i (?c0 # pre) [] []" by (rule loopLog.stop)
    moreover have "?later []" using t by simp
    ultimately show ?thesis using pre by (intro goal [of pre "[]" "[]" "[]"]) simp_all
  next
    assume "\<exists>tmdbData rdy. resolveLinks E config ''series'' ?i ?s ?e tmdbData rdy
                 (tbl, ?c0 # pre) = (resp, (tbl', calls))"
    then obtain tmdbData rdy where "resolveLinks E config ''series'' ?i ?s ?e tmdbData rdy
                 (tbl, ?c0 # pre) = (resp, (tbl', calls))" by blast
    from resolveLinks_series_log [OF this]
    obtain loop fin tbl1 where c: "calls = (?c0 # pre) @ loop @ fin"
      and log: "loopLog E config ?i (?c0 # pre) rdy loop"
      and step: "loop_step ''series'' ?i (tbl, ?c0 # pre) (tbl1, (?c0 # pre) @ loop)"
      and fin: "(fin = [] \<and> tbl' = tbl1) \<or>
            (\<exists>out u. out \<noteq> [] \<and> fin = [StoreStream ?i ?s ?e out] \<and>
               storeStream_call E ?i ?s ?e out (tbl1, (?c0 # pre) @ loop) = (u, (tbl', calls)) \<and>
               (case u of Inr v \<Rightarrow> resp = Json out | Inl err \<Rightarrow> resp = Rejected err))"
      by blast
    from step have per: "list_all (perFileCall ''series'' ?i) loop"
      and keep: "\<And>i' s' e' err'. \<not> (i' = ?i \<and> slot_of_type ''series'' s' e') \<Longrightarrow>
                 getCachedStream err' tbl1 i' s' e' = getCachedStream err' tbl i' s' e'"
      by (auto simp: loop_step_def)
    have keep_request: "getCachedStream err tbl1 ?i ?s ?e = getCachedStream err tbl ?i ?s ?e"
      if "\<not> twoDigitKey ?s ?e"
      using that by (intro keep) (simp add: slot_series)
    have later: "?later fin"
    proof
      assume odd: "\<not> twoDigitKey ?s ?e"
      from fin show "getCachedStream err tbl' ?i ?s ?e = getCachedStream err tbl ?i ?s ?e \<or>
        (\<exists>out. out \<noteq> [] \<and> resp = Json out \<and> fin = [StoreStream ?i ?s ?e out] \<and>
           getCachedStream None tbl' ?i ?s ?e = Inr (Some out))"
      proof
        assume "fin = [] \<and> tbl' = tbl1"
        with keep_request [OF odd] show ?thesis by simp
      next
        assume "\<exists>out u. out \<noteq> [] \<and> fin = [StoreStream ?i ?s ?e out] \<and>
               storeStream_call E ?i ?s ?e out (tbl1, (?c0 # pre) @ loop) = (u, (tbl', calls)) \<and>
               (case u of Inr v \<Rightarrow> resp = Json out | Inl err \<Rightarrow> resp = Rejected err)"
        then obtain out u where ne: "out \<noteq> []" and f: "fin = [StoreStream ?i ?s ?e out]"
          and w: "storeStream_call E ?i ?s ?e out (tbl1, (?c0 # pre) @ loop) = (u, (tbl', calls))"
          and u: "case u of Inr v \<Rightarrow> resp = Json out | Inl err \<Rightarrow> resp = Rejected err"
          by blast
        show ?thesis
        proof (cases u)
          case (Inl m)
          with w have "tbl' = tbl1"
            by (auto simp: storeStream_call_def split: sum.splits)
          with keep_request [OF odd] show ?thesis by simp
        next
          case (Inr v)
          with u have resp: "resp = Json out" by simp
          from w Inr have st: "storeStream (sqlite_error E ((?c0 # pre) @ loop)) tbl1 ?i ?s ?e out
                                 = Inr tbl'"
            by (auto simp: storeStream_call_def split: sum.splits)
          show ?thesis
          proof (cases "?s = None \<or> ?e = None")
            case True
            from getCachedStream_no_key [OF True, of err tbl']
                 getCachedStream_no_key [OF True, of err tbl]
            show ?thesis by simp
          next
            case False
            then obtain a b where ab: "?s = Some a" "?e = Some b" by auto
            from st have "getCachedStream None tbl' ?i (Some a) (Some b) = Inr (Some out)"
              unfolding ab by (rule store_then_get)
            with ab ne resp f show ?thesis by auto
          qed
        qed
      qed
    qed
    from fin have fin': "fin = [] \<or> (\<exists>out. out \<noteq> [] \<and> fin = [StoreStream ?i ?s ?e out])"
      by blast
    from c have "calls = ?c0 # pre @ loop @ fin" by simp
    with pre log per fin' later show ?thesis by (intro goal [of pre loop fin rdy])
  qed
qed


lemma siblings_run:
  "handler envSiblings seriesRequest []
     = (Json [exampleStream],
        ([\<lparr>row_imdb_id = ''tt1'', row_season = Some ''01'', row_episode = Some ''02'',
            streams_json = Some (Stringified [exampleStream])\<rparr>,
          \<lparr>row_imdb_id = ''tt1'', row_season = Some ''03'', row_episode = Some ''07'',
            streams_json = Some (Stringified [siblingStream])\<rparr>,
          \<lparr>row_imdb_id = ''tt1'', row_season = Some ''1'', row_episode = Some ''2'',
            streams_json = Some (Stringified [exampleStream])\<rparr>],
         GetCachedStream ''tt1'' (Some ''1'') (Some ''2'')
           # searchCalls exampleTmdb ''tt1'' (Some ''1'') (Some ''2'')
           @ [GetTorrentHashFromYgg (Some ''101''),
              UploadMagnets [magnet_of ''aaaa'' packA, magnet_of ''bbbb'' packB],
              GetFilesFromMagnetId ''aaaa'' ''YGG'',
              GetCachedStream ''tt1'' (Some ''01'') (Some ''02''),
              UnlockFileLink ''a1'',
              StoreStream ''tt1'' (Some ''01'') (Some ''02'') [exampleStream],
              GetCachedStream ''tt1'' (Some ''03'') (Some ''07''),
              UnlockFileLink ''a2'',
              StoreStream ''tt1'' (Some ''03'') (Some ''07'') [siblingStream],
              GetFilesFromMagnetId ''bbbb'' ''YGG'',
              StoreStream ''tt1'' (Some ''1'') (Some ''2'') [exampleStream]]))"
  by (simp add: route_defs example_defs envSiblings_def siblingStream_def siblingFile_def
      searchCalls_def)


theorem request_slot_apart_from_file_slots_witness:
  "getConfig envSiblings seriesRequest = Inr exampleConfig \<and>
   params_type seriesRequest = ''series'' \<and>
   season_of seriesRequest = Some ''1'' \<and> episode_of seriesRequest = Some ''2'' \<and>
   \<not> twoDigitKey (Some ''1'') (Some ''2'') \<and>
   snd (snd (handler envSiblings seriesRequest []))
     = GetCachedStream ''tt1'' (Some ''1'') (Some ''2'')
         # searchCalls exampleTmdb ''tt1'' (Some ''1'') (Some ''2'')
         @ [GetTorrentHashFromYgg (Some ''101''),
            UploadMagnets [magnet_of ''aaaa'' packA, magnet_of ''bbbb'' packB],
            GetFilesFromMagnetId ''aaaa'' ''YGG'',
            GetCachedStream ''tt1'' (Some ''01'') (Some ''02''),
            UnlockFileLink ''a1'',
            StoreStream ''tt1'' (Some ''01'') (Some ''02'') [exampleStream],
            GetCachedStream ''tt1'' (Some ''03'') (Some ''07''),
            UnlockFileLink ''a2'',
            StoreStream ''tt1'' (Some ''03'') (Some ''07'') [siblingStream],
            GetFilesFromMagnetId ''bbbb'' ''YGG'',
            StoreStream ''tt1'' (Some ''1'') (Some ''2'') [exampleStream]] \<and>
   (\<exists>pre loop fin rdy.
      snd (snd (handler envSiblings seriesRequest []))
        = GetCachedStream ''tt1'' (Some ''1'') (Some ''2'') # pre @ loop @ fin \<and>
      list_all serviceCall pre \<and>
      loopLog envSiblings exampleConfig ''tt1''
        (GetCachedStream ''tt1'' (Some ''1'') (Some ''2'') # pre) rdy loop \<and>
      list_all (perFileCall ''series'' ''tt1'') loop \<and>
      (fin = [] \<or>
       (\<exists>out. out \<noteq> [] \<and> fin = [StoreStream ''tt1'' (Some ''1'') (Some ''2'') out])) \<and>
      list_all (\<lambda>c. \<not> requestSlotCall ''tt1'' (Some ''1'') (Some ''2'') c) loop \<and>
      (getCachedStream None (fst (snd (handler envSiblings seriesRequest []))) ''tt1''
           (Some ''1'') (Some ''2'')
         = getCachedStream None [] ''tt1'' (Some ''1'') (Some ''2'') \<or>
       (\<exists>out. out \<noteq> [] \<and> fst (handler envSiblings seriesRequest []) = Json out \<and>
          fin = [StoreStream ''tt1'' (Some ''1'') (Some ''2'') out] \<and>
          getCachedStream None (fst (snd (handler envSiblings seriesRequest []))) ''tt1''
              (Some ''1'') (Some ''2'')
            = Inr (Some out))))"
proof -
  have cfg: "getConfig envSiblings seriesRequest = Inr exampleConfig"
    by (simp add: envSiblings_def exampleEnv_def)
  have run: "handler envSiblings seriesRequest []
               = (fst (handler envSiblings seriesRequest []),
                  (fst (snd (handler envSiblings seriesRequest [])),
                   snd (snd (handler envSiblings seriesRequest []))))"
    by simp
  have odd: "\<not> twoDigitKey (Some ''1'') (Some ''2'')"
    by (simp add: twoDigits_def)
  have log: "snd (snd (handler envSiblings seriesRequest []))
     = GetCachedStream ''tt1'' (Some ''1'') (Some ''2'')
         # searchCalls exampleTmdb ''tt1'' (Some ''1'') (Some ''2'')
         @ [GetTorrentHashFromYgg (Some ''101''),
            UploadMagnets [magnet_of ''aaaa'' packA, magnet_of ''bbbb'' packB],
            GetFilesFromMagnetId ''aaaa'' ''YGG'',
            GetCachedStream ''tt1'' (Some ''01'') (Some ''02''),
            UnlockFileLink ''a1'',
            StoreStream ''tt1'' (Some ''01'') (Some ''02'') [exampleStream],
            GetCachedStream ''tt1'' (Some ''03'') (Some ''07''),
            UnlockFileLink ''a2'',
            StoreStream ''tt1'' (Some ''03'') (Some ''07'') [siblingStream],
            GetFilesFromMagnetId ''bbbb'' ''YGG'',
            StoreStream ''tt1'' (Some ''1'') (Some ''2'') [exampleStream]]"
    by (simp only: siblings_run snd_conv)
  from request_slot_apart_from_file_slots [OF cfg run example_type, of None] odd
  have "\<exists>pre loop fin rdy.
      snd (snd (handler envSiblings seriesRequest []))
        = GetCachedStream ''tt1'' (Some ''1'') (Some ''2'') # pre @ loop @ fin \<and>
      list_all serviceCall pre \<and>
      loopLog envSiblings exampleConfig ''tt1''
        (GetCachedStream ''tt1'' (Some ''1'') (Some ''2'') # pre) rdy loop \<and>
      list_all (perFileCall ''series'' ''tt1'') loop \<and>
      (fin = [] \<or>
       (\<exists>out. out \<noteq> [] \<and> fin = [StoreStream ''tt1'' (Some ''1'') (Some ''2'') out])) \<and>
      list_all (\<lambda>c. \<not> requestSlotCall ''tt1'' (Some ''1'') (Some ''2'') c) loop \<and>
      (getCachedStream None (fst (snd (handler envSiblings seriesRequest []))) ''tt1''
           (Some ''1'') (Some ''2'')
         = getCachedStream None [] ''tt1'' (Some ''1'') (Some ''2'') \<or>
       (\<exists>out. out \<noteq> [] \<and> fst (handler envSiblings seriesRequest []) = Json out \<and>
          fin = [StoreStream ''tt1'' (Some ''1'') (Some ''2'') out] \<and>
          getCachedStream None (fst (snd (handler envSiblings seriesRequest []))) ''tt1''
              (Some ''1'') (Some ''2'')
            = Inr (Some out)))"
    unfolding example_parse by blast
  with cfg example_type example_parse(2) example_parse(3) odd log show ?thesis
    by (intro conjI)
qed


end
